theory Spec2Isabelle
  imports Main
begin

section \<open>Voice-activity driven speech segmentation (asr/asr\_with\_vad.py)\<close>

text \<open>
  The class \<open>VoiceRecognitionVAD\<close> consumes audio frames together with a voice-activity
  flag, keeps a bounded look-back buffer while no voice is heard, accumulates frames once
  voice is heard, and hands the accumulated audio to a transcription function after a
  pause. The model below follows the methods of the class one by one. Mutation of
  \<open>self\<close> is explicit state passing; an exception, or a call that never returns, is
  a value of type \<open>error\<close> returned together with the state reached at that moment.
\<close>

subsection \<open>Outcomes\<close>

text \<open>
  \<open>Blocked\<close> stands for a call that waits forever: \<open>queue.Queue.get\<close> on an empty
  queue, or \<open>queue.Queue.put\<close> on a full one (both are called with the default
  \<open>block=True\<close> and no timeout). \<open>TranscribeError\<close> is any exception raised by the
  transcription function passed to the constructor.
\<close>

datatype error = ZeroDivisionError | ValueError | TranscribeError | Blocked

text \<open>Python's \<open>a // b\<close> on integers: floor division, raising when \<open>b\<close> is zero.\<close>

definition floordiv :: "int \<Rightarrow> int \<Rightarrow> error + int" where
  "floordiv a b = (if b = 0 then Inl ZeroDivisionError else Inr (a div b))"

subsection \<open>Module constants\<close>

text \<open>
  The module fixes \<open>VAD_SIZE = 50\<close>, \<open>BUFFER_SIZE = 600\<close> and \<open>PAUSE_LIMIT = 800\<close>
  (all in milliseconds). They are collected in a record so that other settings can
  be examined as well; \<open>module_config\<close> holds the values of the source.
\<close>

record config =
  VAD_SIZE :: int
  BUFFER_SIZE :: int
  PAUSE_LIMIT :: int

definition module_config :: config where
  "module_config = \<lparr>VAD_SIZE = 50, BUFFER_SIZE = 600, PAUSE_LIMIT = 800\<rparr>"

subsection \<open>The standard library's \<open>queue.Queue\<close>\<close>

text \<open>
  Only what the class uses: the underlying deque \<open>queue\<close>, the bound \<open>maxsize\<close>
  (a bound that is not positive means an unbounded queue), \<open>full()\<close>, and the blocking
  \<open>get()\<close> and \<open>put(item)\<close>, where \<open>None\<close> means that the call waits forever.
\<close>

record 'a Queue =
  queue :: "'a list"
  maxsize :: int

definition Queue_full :: "'a Queue \<Rightarrow> bool" where
  "Queue_full q = (0 < maxsize q \<and> maxsize q \<le> int (length (queue q)))"

definition Queue_get :: "'a Queue \<Rightarrow> ('a \<times> 'a Queue) option" where
  "Queue_get q = (case queue q of [] \<Rightarrow> None | x # xs \<Rightarrow> Some (x, q\<lparr>queue := xs\<rparr>))"

definition Queue_put :: "'a \<Rightarrow> 'a Queue \<Rightarrow> 'a Queue option" where
  "Queue_put x q =
     (if 0 < maxsize q \<and> maxsize q \<le> int (length (queue q)) then None
      else Some (q\<lparr>queue := queue q @ [x]\<rparr>))"

subsection \<open>The recogniser's state\<close>

text \<open>
  A frame is a one-dimensional array of samples, here a list over any sample type.
  The transcription function receives the concatenated audio and returns a text,
  \<open>None\<close> (Python's \<open>None\<close>), or raises.
\<close>

type_synonym 'a frame = "'a list"

type_synonym 'a transcribe = "'a list \<Rightarrow> error + string option"

record 'a vad =
  samples :: "'a frame list"
  buffer :: "'a frame Queue"
  recording_started :: bool
  gap_counter :: int
  input_stream_active :: bool

text \<open>The dictionary returned for a transcribed utterance, with its three keys.\<close>

datatype result = Result (name: string) (content: string) (type: string)

text \<open>
  \<open>__init__\<close>: the fields the segmentation uses. The integer division that sizes the
  buffer raises when \<open>VAD_SIZE\<close> is zero.
\<close>

definition init :: "config \<Rightarrow> error + 'a vad" where
  "init cfg =
     (case floordiv (BUFFER_SIZE cfg) (VAD_SIZE cfg) of
        Inl e \<Rightarrow> Inl e
      | Inr m \<Rightarrow>
          Inr \<lparr>samples = [], buffer = \<lparr>queue = [], maxsize = m\<rparr>,
               recording_started = False, gap_counter = 0, input_stream_active = False\<rparr>)"

subsection \<open>Frame handling\<close>

definition manage_pre_activation_buffer ::
    "'a frame \<Rightarrow> bool \<Rightarrow> 'a vad \<Rightarrow> (error + unit) \<times> 'a vad" where
  "manage_pre_activation_buffer sample vad_confidence s =
     (case (if Queue_full (buffer s)
            then (case Queue_get (buffer s) of
                    None \<Rightarrow> None
                  | Some (_, b) \<Rightarrow> Some (s\<lparr>buffer := b\<rparr>))
            else Some s) of
        None \<Rightarrow> (Inl Blocked, s)
      | Some s1 \<Rightarrow>
          (case Queue_put sample (buffer s1) of
             None \<Rightarrow> (Inl Blocked, s1)
           | Some b \<Rightarrow>
               (let s2 = s1\<lparr>buffer := b\<rparr>
                in if vad_confidence
                   then (Inr (), s2\<lparr>samples := queue (buffer s2), recording_started := True\<rparr>)
                   else (Inr (), s2))))"

definition identify_speaker :: "'a frame list \<Rightarrow> string" where
  "identify_speaker audio_clip = ''GoldRoger''"

text \<open>\<open>asr\<close>: \<open>np.concatenate\<close> raises \<open>ValueError\<close> on an empty list of arrays.\<close>

definition asr :: "'a transcribe \<Rightarrow> 'a frame list \<Rightarrow> error + string option" where
  "asr transcribe samps =
     (if samps = [] then Inl ValueError else transcribe (concat samps))"

text \<open>
  \<open>process_detected_audio\<close> ignores its argument and reads \<open>self.samples\<close>. It stops
  the input stream, transcribes, and returns the dictionary when the text is truthy
  (neither \<open>None\<close> nor the empty string); otherwise it falls off the end and returns
  \<open>None\<close>. It does not touch any other field.
\<close>

definition process_detected_audio ::
    "'a transcribe \<Rightarrow> 'a vad \<Rightarrow> (error + result option) \<times> 'a vad" where
  "process_detected_audio transcribe s =
     (let detected_speaker = identify_speaker (samples s);
          s1 = s\<lparr>input_stream_active := False\<rparr>
      in case asr transcribe (samples s1) of
           Inl e \<Rightarrow> (Inl e, s1)
         | Inr None \<Rightarrow> (Inr None, s1)
         | Inr (Some detected_text) \<Rightarrow>
             (if detected_text \<noteq> []
              then (Inr (Some (Result detected_speaker detected_text ''text'')), s1)
              else (Inr None, s1)))"

definition process_activated_audio ::
    "config \<Rightarrow> 'a transcribe \<Rightarrow> 'a frame \<Rightarrow> bool \<Rightarrow> 'a vad \<Rightarrow> (error + result option) \<times> 'a vad" where
  "process_activated_audio cfg transcribe sample vad_confidence s =
     (let s1 = s\<lparr>samples := samples s @ [sample]\<rparr>
      in if \<not> vad_confidence
         then (let s2 = s1\<lparr>gap_counter := gap_counter s1 + 1\<rparr>
               in case floordiv (PAUSE_LIMIT cfg) (VAD_SIZE cfg) of
                    Inl e \<Rightarrow> (Inl e, s2)
                  | Inr limit \<Rightarrow>
                      (if gap_counter s2 \<ge> limit
                       then process_detected_audio transcribe s2
                       else (Inr None, s2)))
         else (Inr None, s1\<lparr>gap_counter := 0\<rparr>))"

definition handle_audio_sample ::
    "config \<Rightarrow> 'a transcribe \<Rightarrow> 'a frame \<Rightarrow> bool \<Rightarrow> 'a vad \<Rightarrow> (error + result option) \<times> 'a vad" where
  "handle_audio_sample cfg transcribe sample vad_confidence s =
     (if \<not> recording_started s
      then (case manage_pre_activation_buffer sample vad_confidence s of
              (Inl e, s') \<Rightarrow> (Inl e, s')
            | (Inr _, s') \<Rightarrow> (Inr None, s'))
      else process_activated_audio cfg transcribe sample vad_confidence s)"

text \<open>
  \<open>reset\<close> has no \<open>return\<close>; its value is Python's \<open>None\<close>, the same value that
  frame handling yields when there is no utterance.
\<close>

definition reset :: "'a vad \<Rightarrow> result option \<times> 'a vad" where
  "reset s =
     (None, s\<lparr>recording_started := False, samples := [], gap_counter := 0,
              buffer := (buffer s)\<lparr>queue := []\<rparr>\<rparr>)"

subsection \<open>The listening loop\<close>

text \<open>
  \<open>_listen_and_respond\<close> takes (frame, flag) pairs from \<open>sample_queue\<close> until a call
  yields a result. The pairs already queued are the list argument; what is left of
  it is returned with the outcome. With the queue exhausted the loop waits in
  \<open>sample_queue.get()\<close>, which is the outcome \<open>Blocked\<close>.
\<close>

fun listen_and_respond ::
    "config \<Rightarrow> 'a transcribe \<Rightarrow> ('a frame \<times> bool) list \<Rightarrow> 'a vad
      \<Rightarrow> (error + result) \<times> 'a vad \<times> ('a frame \<times> bool) list" where
  "listen_and_respond cfg transcribe [] s = (Inl Blocked, s, [])"
| "listen_and_respond cfg transcribe ((sample, vad_confidence) # sample_queue) s =
     (case handle_audio_sample cfg transcribe sample vad_confidence s of
        (Inl e, s') \<Rightarrow> (Inl e, s', sample_queue)
      | (Inr (Some r), s') \<Rightarrow> (Inr r, s', sample_queue)
      | (Inr None, s') \<Rightarrow> listen_and_respond cfg transcribe sample_queue s')"

definition start ::
    "config \<Rightarrow> 'a transcribe \<Rightarrow> ('a frame \<times> bool) list \<Rightarrow> 'a vad
      \<Rightarrow> (error + result) \<times> 'a vad \<times> ('a frame \<times> bool) list" where
  "start cfg transcribe sample_queue s =
     listen_and_respond cfg transcribe sample_queue (s\<lparr>input_stream_active := True\<rparr>)"

definition start_listening ::
    "config \<Rightarrow> 'a transcribe \<Rightarrow> ('a frame \<times> bool) list \<Rightarrow> 'a vad
      \<Rightarrow> (error + result) \<times> 'a vad \<times> ('a frame \<times> bool) list" where
  "start_listening cfg transcribe sample_queue s =
     (case listen_and_respond cfg transcribe sample_queue (s\<lparr>input_stream_active := True\<rparr>) of
        (Inl e, s', rest) \<Rightarrow> (Inl e, s', rest)
      | (Inr heard_text, s', rest) \<Rightarrow> (Inr heard_text, snd (reset s'), rest))"

subsection \<open>Notions used to state the properties\<close>

text \<open>
  The frames a queue bounded by \<open>C\<close> retains of \<open>xs\<close>: the most recent \<open>C\<close> of
  them, and all of them when the bound is not positive (an unbounded queue).
\<close>

definition lookback :: "int \<Rightarrow> 'a list \<Rightarrow> 'a list" where
  "lookback C xs = (if 0 < C then drop (length xs - nat C) xs else xs)"

text \<open>Frames tagged with the voice-activity flag, as the audio callback queues them.\<close>

definition inactive :: "'a frame list \<Rightarrow> ('a frame \<times> bool) list" where
  "inactive fs = map (\<lambda>f. (f, False)) fs"

definition active :: "'a frame list \<Rightarrow> ('a frame \<times> bool) list" where
  "active fs = map (\<lambda>f. (f, True)) fs"

text \<open>
  The states a recogniser can be in: the one the constructor builds, and every state
  that a public or frame-handling method leaves behind, whether the call returned,
  raised or blocked.
\<close>

inductive reachable :: "config \<Rightarrow> 'a transcribe \<Rightarrow> 'a vad \<Rightarrow> bool"
  for cfg :: config and transcribe :: "'a transcribe" where
  reachable_init: "init cfg = Inr s \<Longrightarrow> reachable cfg transcribe s"
| reachable_handle:
    "reachable cfg transcribe s \<Longrightarrow>
     reachable cfg transcribe (snd (handle_audio_sample cfg transcribe sample vad_confidence s))"
| reachable_process:
    "reachable cfg transcribe s \<Longrightarrow> reachable cfg transcribe (snd (process_detected_audio transcribe s))"
| reachable_reset: "reachable cfg transcribe s \<Longrightarrow> reachable cfg transcribe (snd (reset s))"
| reachable_stream_start:
    "reachable cfg transcribe s \<Longrightarrow> reachable cfg transcribe (s\<lparr>input_stream_active := True\<rparr>)"

text \<open>The bound of the look-back buffer is respected (vacuous for an unbounded queue).\<close>

definition buffer_bounded :: "'a vad \<Rightarrow> bool" where
  "buffer_bounded s =
     (maxsize (buffer s) \<le> 0 \<or> int (length (queue (buffer s))) \<le> maxsize (buffer s))"

text \<open>
  A recogniser as the constructor or \<open>reset\<close> leaves it: nothing buffered, nothing
  accumulated, not recording, no pause counted, the buffer sized from the constants.
\<close>

definition freshly_reset :: "config \<Rightarrow> 'a vad \<Rightarrow> bool" where
  "freshly_reset cfg s =
     (VAD_SIZE cfg \<noteq> 0 \<and> maxsize (buffer s) = BUFFER_SIZE cfg div VAD_SIZE cfg
      \<and> queue (buffer s) = [] \<and> samples s = [] \<and> \<not> recording_started s
      \<and> gap_counter s = 0)"

text \<open>
  The setting of the worked scenario: frames of 50 ms, a buffer of 200 ms (four frames)
  and a pause limit of 200 ms (four frames).
\<close>

definition scenario_config :: config where
  "scenario_config = \<lparr>VAD_SIZE = 50, BUFFER_SIZE = 200, PAUSE_LIMIT = 200\<rparr>"

text \<open>A transcription function that returns the audio it was given, for concrete runs
  over frames of characters.\<close>

definition echo :: "char transcribe" where
  "echo audio = Inr (Some audio)"

text \<open>
  A setting whose buffer size divided by the frame size is zero: the look-back buffer
  is then built with \<open>maxsize=0\<close>.
\<close>

definition zero_buffer_config :: config where
  "zero_buffer_config = \<lparr>VAD_SIZE = 50, BUFFER_SIZE = 0, PAUSE_LIMIT = 200\<rparr>"

text \<open>
  The number of inactive frames at the end of a sequence of tagged frames, that is,
  the inactive frames in a row since the last active one.
\<close>

definition consecutive_inactive :: "('a frame \<times> bool) list \<Rightarrow> nat" where
  "consecutive_inactive q = length (takeWhile (\<lambda>p. \<not> snd p) (rev q))"

text \<open>
  No run of inactive frames in the sequence reaches \<open>L\<close>: every prefix that ends
  with an inactive frame has fewer than \<open>L\<close> inactive frames at its end.
\<close>

definition pauses_below :: "int \<Rightarrow> ('a frame \<times> bool) list \<Rightarrow> bool" where
  "pauses_below L q =
     list_all (\<lambda>n. snd (q ! n) \<or> int (consecutive_inactive (take (Suc n) q)) < L)
       [0..<length q]"

text \<open>
  A transcription function that returns the empty text for audio of fewer than \<open>n\<close>
  samples, and the audio itself otherwise.
\<close>

definition mute_below :: "nat \<Rightarrow> char transcribe" where
  "mute_below n audio = Inr (Some (if length audio < n then [] else audio))"

section \<open>Basic facts\<close>

subsection \<open>The look-back buffer\<close>

lemma lookback_length: "0 < C \<Longrightarrow> int (length (lookback C xs)) \<le> C"
  by (auto simp: lookback_def)

lemma lookback_snoc: "lookback C (lookback C xs @ [f]) = lookback C (xs @ [f])"
proof (cases "0 < C")
  case True
  have "Suc (length xs) - (length xs - nat C + nat C) + (length xs - nat C)
          = Suc (length xs) - nat C"
    by arith
  with True show ?thesis by (simp add: lookback_def)
next
  case False
  then show ?thesis by (simp add: lookback_def)
qed

lemma lookback_append: "lookback C (lookback C xs @ ys) = lookback C (xs @ ys)"
proof (induction ys rule: rev_induct)
  case Nil
  then show ?case by (simp add: lookback_def)
next
  case (snoc y ys)
  have "lookback C (lookback C xs @ ys @ [y]) = lookback C (lookback C (lookback C xs @ ys) @ [y])"
    using lookback_snoc [of C "lookback C xs @ ys" y] by simp
  also have "\<dots> = lookback C (lookback C (xs @ ys) @ [y])"
    by (simp only: snoc.IH)
  also have "\<dots> = lookback C (xs @ ys @ [y])"
    using lookback_snoc [of C "xs @ ys" y] by simp
  finally show ?case .
qed

lemma lookback_bounded_id:
  "C \<le> 0 \<or> int (length xs) \<le> C \<Longrightarrow> lookback C xs = xs"
  by (auto simp: lookback_def)

lemma evict_is_lookback:
  assumes "buffer_bounded s"
  shows "(if Queue_full (buffer s) then tl (queue (buffer s)) else queue (buffer s)) @ [f]
           = lookback (maxsize (buffer s)) (queue (buffer s) @ [f])"
proof (cases "Queue_full (buffer s)")
  case True
  then obtain x xs where q: "queue (buffer s) = x # xs"
    by (cases "queue (buffer s)") (auto simp: Queue_full_def)
  from True assms q have "int (length xs) + 1 = maxsize (buffer s)"
    by (auto simp: Queue_full_def buffer_bounded_def)
  then have "nat (maxsize (buffer s)) = Suc (length xs)" "0 < maxsize (buffer s)"
    by linarith+
  with True q show ?thesis by (simp add: lookback_def)
next
  case False
  then show ?thesis by (auto simp: Queue_full_def lookback_def)
qed

lemma manage_step:
  assumes "buffer_bounded s"
  shows "manage_pre_activation_buffer f v s =
     (Inr (),
      let b = (buffer s)\<lparr>queue :=
                (if Queue_full (buffer s) then tl (queue (buffer s)) else queue (buffer s)) @ [f]\<rparr>
      in if v then s\<lparr>buffer := b, samples := queue b, recording_started := True\<rparr>
         else s\<lparr>buffer := b\<rparr>)"
proof (cases "Queue_full (buffer s)")
  case True
  then obtain x xs where q: "queue (buffer s) = x # xs"
    by (cases "queue (buffer s)") (auto simp: Queue_full_def)
  from True assms q have "int (length xs) + 1 = maxsize (buffer s)"
    by (auto simp: Queue_full_def buffer_bounded_def)
  with True q show ?thesis
    by (simp add: manage_pre_activation_buffer_def Queue_get_def Queue_put_def Let_def)
next
  case False
  then have "\<not> (0 < maxsize (buffer s) \<and> maxsize (buffer s) \<le> int (length (queue (buffer s))))"
    by (simp add: Queue_full_def)
  with False show ?thesis
    by (simp add: manage_pre_activation_buffer_def Queue_put_def Let_def)
qed

lemma handle_idle:
  assumes "buffer_bounded s" and "\<not> recording_started s"
  shows "handle_audio_sample cfg tr f v s =
     (Inr None,
      let b = (buffer s)\<lparr>queue := lookback (maxsize (buffer s)) (queue (buffer s) @ [f])\<rparr>
      in if v then s\<lparr>buffer := b, samples := queue b, recording_started := True\<rparr>
         else s\<lparr>buffer := b\<rparr>)"
  using assms evict_is_lookback [OF assms(1), of f]
  by (simp add: handle_audio_sample_def manage_step Let_def)

subsection \<open>Steps while recording\<close>

lemma process_detected_audio_state:
  "snd (process_detected_audio tr s) = s\<lparr>input_stream_active := False\<rparr>"
  by (simp add: process_detected_audio_def Let_def split: sum.splits option.splits)

lemma process_detected_audio_result:
  "fst (process_detected_audio tr s) = Inr (Some r) \<Longrightarrow>
     tr (concat (samples s)) = Inr (Some (content r)) \<and> content r \<noteq> []
     \<and> r = Result ''GoldRoger'' (content r) ''text''"
  by (auto simp: process_detected_audio_def Let_def asr_def identify_speaker_def
      split: sum.splits option.splits if_splits)

lemma process_detected_audio_truthy:
  "samples s \<noteq> [] \<Longrightarrow> tr (concat (samples s)) = Inr (Some t) \<Longrightarrow> t \<noteq> [] \<Longrightarrow>
     process_detected_audio tr s
       = (Inr (Some (Result ''GoldRoger'' t ''text'')), s\<lparr>input_stream_active := False\<rparr>)"
  by (simp add: process_detected_audio_def Let_def asr_def identify_speaker_def)

lemma handle_recording_active:
  "recording_started s \<Longrightarrow>
     handle_audio_sample cfg tr f True s
       = (Inr None, s\<lparr>samples := samples s @ [f], gap_counter := 0\<rparr>)"
  by (simp add: handle_audio_sample_def process_activated_audio_def)

lemma handle_recording_below_limit:
  "recording_started s \<Longrightarrow> VAD_SIZE cfg \<noteq> 0 \<Longrightarrow>
   gap_counter s + 1 < PAUSE_LIMIT cfg div VAD_SIZE cfg \<Longrightarrow>
     handle_audio_sample cfg tr f False s
       = (Inr None, s\<lparr>samples := samples s @ [f], gap_counter := gap_counter s + 1\<rparr>)"
  by (simp add: handle_audio_sample_def process_activated_audio_def floordiv_def Let_def)

lemma handle_recording_at_limit:
  "recording_started s \<Longrightarrow> VAD_SIZE cfg \<noteq> 0 \<Longrightarrow>
   PAUSE_LIMIT cfg div VAD_SIZE cfg \<le> gap_counter s + 1 \<Longrightarrow>
     handle_audio_sample cfg tr f False s
       = process_detected_audio tr
           (s\<lparr>samples := samples s @ [f], gap_counter := gap_counter s + 1\<rparr>)"
  by (simp add: handle_audio_sample_def process_activated_audio_def floordiv_def Let_def)

lemma handle_recording_state:
  assumes "recording_started s"
  shows "samples (snd (handle_audio_sample cfg tr f v s)) = samples s @ [f]
         \<and> recording_started (snd (handle_audio_sample cfg tr f v s))
         \<and> buffer (snd (handle_audio_sample cfg tr f v s)) = buffer s"
  using assms
  by (simp add: handle_audio_sample_def process_activated_audio_def Let_def
      process_detected_audio_state split: sum.splits)

lemma handle_recording_result:
  assumes "recording_started s"
    and "handle_audio_sample cfg tr f v s = (Inr (Some r), s')"
  shows "tr (concat (samples s')) = Inr (Some (content r)) \<and> content r \<noteq> []
         \<and> r = Result ''GoldRoger'' (content r) ''text''"
proof -
  let ?s2 = "s\<lparr>samples := samples s @ [f], gap_counter := gap_counter s + 1\<rparr>"
  from assms have p: "process_detected_audio tr ?s2 = (Inr (Some r), s')"
    by (auto simp: handle_audio_sample_def process_activated_audio_def Let_def
        split: sum.splits if_splits)
  then have "fst (process_detected_audio tr ?s2) = Inr (Some r)" by simp
  from process_detected_audio_result [OF this]
  have "tr (concat (samples ?s2)) = Inr (Some (content r)) \<and> content r \<noteq> []
         \<and> r = Result ''GoldRoger'' (content r) ''text''" .
  moreover from p have "s' = ?s2\<lparr>input_stream_active := False\<rparr>"
    using process_detected_audio_state [of tr ?s2] by simp
  ultimately show ?thesis by simp
qed

subsection \<open>Invariants of reachable states\<close>

lemma init_fresh: "init cfg = Inr s \<Longrightarrow> freshly_reset cfg s"
  by (auto simp: init_def floordiv_def freshly_reset_def split: if_splits)

lemma fresh_bounded: "freshly_reset cfg s \<Longrightarrow> buffer_bounded s"
  by (auto simp: freshly_reset_def buffer_bounded_def)

lemma handle_preserves_bounded:
  assumes "buffer_bounded s"
  shows "buffer_bounded (snd (handle_audio_sample cfg tr f v s))
         \<and> maxsize (buffer (snd (handle_audio_sample cfg tr f v s))) = maxsize (buffer s)"
proof (cases "recording_started s")
  case True
  from handle_recording_state [OF True, of cfg tr f v] assms
  show ?thesis by (simp add: buffer_bounded_def)
next
  case False
  have "maxsize (buffer s) \<le> 0
      \<or> int (length (lookback (maxsize (buffer s)) (queue (buffer s) @ [f]))) \<le> maxsize (buffer s)"
    using lookback_length [of "maxsize (buffer s)" "queue (buffer s) @ [f]"] by linarith
  then show ?thesis
    by (simp add: handle_idle [OF assms False] Let_def buffer_bounded_def)
qed

lemma handle_preserves_gap:
  assumes "buffer_bounded s" and "recording_started s \<or> gap_counter s = 0"
  shows "recording_started (snd (handle_audio_sample cfg tr f v s))
         \<or> gap_counter (snd (handle_audio_sample cfg tr f v s)) = 0"
proof (cases "recording_started s")
  case True
  from handle_recording_state [OF True, of cfg tr f v] show ?thesis by simp
next
  case False
  with assms show ?thesis by (simp add: handle_idle Let_def)
qed

lemma reachable_invariant:
  assumes "reachable cfg tr s"
  shows "VAD_SIZE cfg \<noteq> 0
         \<and> maxsize (buffer s) = BUFFER_SIZE cfg div VAD_SIZE cfg
         \<and> buffer_bounded s
         \<and> (recording_started s \<or> gap_counter s = 0)"
  using assms
proof (induction rule: reachable.induct)
  case (reachable_init s)
  from init_fresh [OF this] fresh_bounded [of cfg s] show ?case
    by (simp add: freshly_reset_def)
next
  case (reachable_handle s sample vad_confidence)
  then show ?case
    using handle_preserves_bounded [of s cfg tr sample vad_confidence]
      handle_preserves_gap [of s cfg tr sample vad_confidence]
    by simp
next
  case (reachable_process s)
  then show ?case by (auto simp: process_detected_audio_state buffer_bounded_def)
next
  case (reachable_reset s)
  then show ?case by (auto simp: reset_def buffer_bounded_def)
next
  case (reachable_stream_start s)
  then show ?case by (auto simp: buffer_bounded_def)
qed

lemma reset_fresh: "reachable cfg tr s \<Longrightarrow> freshly_reset cfg (snd (reset s))"
  using reachable_invariant [of cfg tr s] by (simp add: freshly_reset_def reset_def)

subsection \<open>Runs of the listening loop\<close>

lemma listen_inactive_idle:
  assumes "buffer_bounded s" and "\<not> recording_started s"
  shows "listen_and_respond cfg tr (inactive fs @ q) s
           = listen_and_respond cfg tr q
               (s\<lparr>buffer := (buffer s)\<lparr>queue :=
                    lookback (maxsize (buffer s)) (queue (buffer s) @ fs)\<rparr>\<rparr>)"
  using assms
proof (induction fs arbitrary: s)
  case Nil
  then have "lookback (maxsize (buffer s)) (queue (buffer s)) = queue (buffer s)"
    by (intro lookback_bounded_id) (simp add: buffer_bounded_def)
  then show ?case by (simp add: inactive_def)
next
  case (Cons f fs)
  let ?C = "maxsize (buffer s)"
  let ?s1 = "s\<lparr>buffer := (buffer s)\<lparr>queue := lookback ?C (queue (buffer s) @ [f])\<rparr>\<rparr>"
  have h: "handle_audio_sample cfg tr f False s = (Inr None, ?s1)"
    using handle_idle [OF Cons.prems, of cfg tr f False] by (simp add: Let_def)
  have b1: "buffer_bounded ?s1"
    using handle_preserves_bounded [OF Cons.prems(1), of cfg tr f False] h by simp
  have r1: "\<not> recording_started ?s1" using Cons.prems by simp
  have "listen_and_respond cfg tr (inactive (f # fs) @ q) s
          = listen_and_respond cfg tr (inactive fs @ q) ?s1"
    using h by (simp add: inactive_def)
  also have "\<dots> = listen_and_respond cfg tr q
       (?s1\<lparr>buffer := (buffer ?s1)\<lparr>queue :=
                    lookback (maxsize (buffer ?s1)) (queue (buffer ?s1) @ fs)\<rparr>\<rparr>)"
    by (rule Cons.IH [OF b1 r1])
  also have "\<dots> = listen_and_respond cfg tr q
       (s\<lparr>buffer := (buffer s)\<lparr>queue := lookback ?C (queue (buffer s) @ f # fs)\<rparr>\<rparr>)"
    using lookback_append [of ?C "queue (buffer s) @ [f]" fs] by simp
  finally show ?case .
qed

lemma listen_active_recording:
  assumes "recording_started s"
  shows "listen_and_respond cfg tr (active (f # fs) @ q) s
           = listen_and_respond cfg tr q
               (s\<lparr>samples := samples s @ f # fs, gap_counter := 0\<rparr>)"
  using assms
proof (induction fs arbitrary: s f)
  case Nil
  then show ?case by (simp add: active_def handle_recording_active)
next
  case (Cons g fs)
  let ?s1 = "s\<lparr>samples := samples s @ [f], gap_counter := 0\<rparr>"
  have "listen_and_respond cfg tr (active (f # g # fs) @ q) s
          = listen_and_respond cfg tr (active (g # fs) @ q) ?s1"
    using Cons.prems by (simp add: active_def handle_recording_active)
  also have "\<dots> = listen_and_respond cfg tr q
               (?s1\<lparr>samples := samples ?s1 @ g # fs, gap_counter := 0\<rparr>)"
    by (rule Cons.IH) (use Cons.prems in simp)
  finally show ?case by simp
qed

lemma listen_inactive_recording:
  assumes "recording_started s" and "VAD_SIZE cfg \<noteq> 0"
    and "gap_counter s + int (length fs) < PAUSE_LIMIT cfg div VAD_SIZE cfg"
  shows "listen_and_respond cfg tr (inactive fs @ q) s
           = listen_and_respond cfg tr q
               (s\<lparr>samples := samples s @ fs,
                   gap_counter := gap_counter s + int (length fs)\<rparr>)"
  using assms
proof (induction fs arbitrary: s)
  case Nil
  then show ?case by (simp add: inactive_def)
next
  case (Cons f fs)
  let ?s1 = "s\<lparr>samples := samples s @ [f], gap_counter := gap_counter s + 1\<rparr>"
  from Cons.prems have lt: "gap_counter s + 1 < PAUSE_LIMIT cfg div VAD_SIZE cfg" by simp
  have "listen_and_respond cfg tr (inactive (f # fs) @ q) s
          = listen_and_respond cfg tr (inactive fs @ q) ?s1"
    using handle_recording_below_limit [OF Cons.prems(1,2) lt, of tr f]
    by (simp add: inactive_def)
  also have "\<dots> = listen_and_respond cfg tr q
               (?s1\<lparr>samples := samples ?s1 @ fs,
                     gap_counter := gap_counter ?s1 + int (length fs)\<rparr>)"
    by (rule Cons.IH) (use Cons.prems in simp_all)
  finally show ?case by (simp add: add.assoc)
qed

lemma listen_activation:
  assumes "freshly_reset cfg s0"
  shows "listen_and_respond cfg tr (inactive pre @ (a, True) # q) s0
           = listen_and_respond cfg tr q
               (s0\<lparr>buffer := (buffer s0)\<lparr>queue :=
                      lookback (BUFFER_SIZE cfg div VAD_SIZE cfg) (pre @ [a])\<rparr>,
                    samples := lookback (BUFFER_SIZE cfg div VAD_SIZE cfg) (pre @ [a]),
                    recording_started := True\<rparr>)"
proof -
  let ?C = "BUFFER_SIZE cfg div VAD_SIZE cfg"
  let ?s1 = "s0\<lparr>buffer := (buffer s0)\<lparr>queue := lookback ?C pre\<rparr>\<rparr>"
  from assms have f: "maxsize (buffer s0) = ?C" "queue (buffer s0) = []"
    "\<not> recording_started s0"
    by (simp_all add: freshly_reset_def)
  have "listen_and_respond cfg tr (inactive pre @ (a, True) # q) s0
          = listen_and_respond cfg tr ((a, True) # q) ?s1"
    using listen_inactive_idle [OF fresh_bounded [OF assms] f(3), of cfg tr pre "(a, True) # q"] f
    by simp
  moreover have "?C \<le> 0 \<or> int (length (lookback ?C pre)) \<le> ?C"
    using lookback_length [of ?C pre] by linarith
  then have b1: "buffer_bounded ?s1"
    by (simp add: buffer_bounded_def f)
  have "handle_audio_sample cfg tr a True ?s1
          = (Inr None, s0\<lparr>buffer := (buffer s0)\<lparr>queue := lookback ?C (pre @ [a])\<rparr>,
                    samples := lookback ?C (pre @ [a]), recording_started := True\<rparr>)"
    using handle_idle [OF b1, of cfg tr a True] f lookback_append [of ?C pre "[a]"]
    by (simp add: Let_def)
  ultimately show ?thesis by simp
qed

lemma listen_active_recording_any:
  assumes "recording_started s" and "gap_counter s = 0"
  shows "listen_and_respond cfg tr (active fs @ q) s
           = listen_and_respond cfg tr q (s\<lparr>samples := samples s @ fs\<rparr>)"
proof (cases fs)
  case Nil
  then show ?thesis by (simp add: active_def)
next
  case (Cons f fs')
  have "s\<lparr>samples := samples s @ f # fs', gap_counter := 0\<rparr> = s\<lparr>samples := samples s @ f # fs'\<rparr>"
    using assms(2) by (cases s) simp
  with listen_active_recording [OF assms(1), of cfg tr f fs' q] Cons show ?thesis by simp
qed

lemma listen_inactive_recording_any:
  assumes "recording_started s" and "VAD_SIZE cfg \<noteq> 0" and "gap_counter s = 0"
    and "int (length fs) < PAUSE_LIMIT cfg div VAD_SIZE cfg \<or> fs = []"
  shows "listen_and_respond cfg tr (inactive fs @ q) s
           = listen_and_respond cfg tr q
               (s\<lparr>samples := samples s @ fs, gap_counter := int (length fs)\<rparr>)"
proof (cases "fs = []")
  case True
  have "s\<lparr>gap_counter := 0\<rparr> = s" using assms(3) by (cases s) simp
  with True show ?thesis by (simp add: inactive_def)
next
  case False
  with assms have "gap_counter s + int (length fs) < PAUSE_LIMIT cfg div VAD_SIZE cfg" by simp
  from listen_inactive_recording [OF assms(1,2) this, of tr q] assms(3) show ?thesis by simp
qed

lemma run_until_pause:
  assumes "freshly_reset cfg s0"
    and "int (length post) < PAUSE_LIMIT cfg div VAD_SIZE cfg \<or> post = []"
  shows "listen_and_respond cfg tr (inactive pre @ active (a # acts) @ inactive post @ q) s0
           = listen_and_respond cfg tr q
               (s0\<lparr>buffer := (buffer s0)\<lparr>queue :=
                      lookback (BUFFER_SIZE cfg div VAD_SIZE cfg) (pre @ [a])\<rparr>,
                    samples := lookback (BUFFER_SIZE cfg div VAD_SIZE cfg) (pre @ [a]) @ acts @ post,
                    recording_started := True,
                    gap_counter := int (length post)\<rparr>)"
proof -
  let ?C = "BUFFER_SIZE cfg div VAD_SIZE cfg"
  let ?s2 = "s0\<lparr>buffer := (buffer s0)\<lparr>queue := lookback ?C (pre @ [a])\<rparr>,
                 samples := lookback ?C (pre @ [a]), recording_started := True\<rparr>"
  let ?s3 = "?s2\<lparr>samples := samples ?s2 @ acts\<rparr>"
  from assms(1) have v: "VAD_SIZE cfg \<noteq> 0" and g: "gap_counter s0 = 0"
    by (simp_all add: freshly_reset_def)
  have "listen_and_respond cfg tr (inactive pre @ active (a # acts) @ inactive post @ q) s0
          = listen_and_respond cfg tr (active acts @ inactive post @ q) ?s2"
    using listen_activation [OF assms(1), of tr pre a "active acts @ inactive post @ q"]
    by (simp add: active_def)
  also have "\<dots> = listen_and_respond cfg tr (inactive post @ q) ?s3"
    by (rule listen_active_recording_any) (simp_all add: g)
  also have "\<dots> = listen_and_respond cfg tr q
       (?s3\<lparr>samples := samples ?s3 @ post, gap_counter := int (length post)\<rparr>)"
    by (rule listen_inactive_recording_any) (simp_all add: g v assms(2))
  finally have run: "listen_and_respond cfg tr
        (inactive pre @ active (a # acts) @ inactive post @ q) s0
      = listen_and_respond cfg tr q
          (?s3\<lparr>samples := samples ?s3 @ post, gap_counter := int (length post)\<rparr>)" .
  have st: "?s3\<lparr>samples := samples ?s3 @ post, gap_counter := int (length post)\<rparr>
      = s0\<lparr>buffer := (buffer s0)\<lparr>queue := lookback ?C (pre @ [a])\<rparr>,
           samples := lookback ?C (pre @ [a]) @ acts @ post,
           recording_started := True,
           gap_counter := int (length post)\<rparr>"
    by (cases s0) simp
  show ?thesis by (simp only: run st)
qed

lemma run_finalize:
  assumes "freshly_reset cfg s0"
    and "int (length post) < PAUSE_LIMIT cfg div VAD_SIZE cfg \<or> post = []"
    and "PAUSE_LIMIT cfg div VAD_SIZE cfg \<le> int (length post) + 1"
    and "tr (concat (lookback (BUFFER_SIZE cfg div VAD_SIZE cfg) (pre @ [a]) @ acts @ post @ [f]))
           = Inr (Some t)"
    and "t \<noteq> []"
  shows "listen_and_respond cfg tr
           (inactive pre @ active (a # acts) @ inactive post @ (f, False) # q) s0
           = (Inr (Result ''GoldRoger'' t ''text''),
              s0\<lparr>buffer := (buffer s0)\<lparr>queue :=
                      lookback (BUFFER_SIZE cfg div VAD_SIZE cfg) (pre @ [a])\<rparr>,
                 samples := lookback (BUFFER_SIZE cfg div VAD_SIZE cfg) (pre @ [a])
                              @ acts @ post @ [f],
                 recording_started := True,
                 gap_counter := int (length post) + 1,
                 input_stream_active := False\<rparr>,
              q)"
proof -
  let ?C = "BUFFER_SIZE cfg div VAD_SIZE cfg"
  let ?s = "s0\<lparr>buffer := (buffer s0)\<lparr>queue := lookback ?C (pre @ [a])\<rparr>,
                samples := lookback ?C (pre @ [a]) @ acts @ post,
                recording_started := True, gap_counter := int (length post)\<rparr>"
  let ?s' = "?s\<lparr>samples := samples ?s @ [f], gap_counter := gap_counter ?s + 1\<rparr>"
  from assms(1) have v: "VAD_SIZE cfg \<noteq> 0" by (simp add: freshly_reset_def)
  have "handle_audio_sample cfg tr f False ?s = process_detected_audio tr ?s'"
    by (rule handle_recording_at_limit) (simp_all add: v assms(3))
  also have "\<dots> = (Inr (Some (Result ''GoldRoger'' t ''text'')), ?s'\<lparr>input_stream_active := False\<rparr>)"
    by (rule process_detected_audio_truthy) (use assms(4,5) in simp_all)
  finally have h: "handle_audio_sample cfg tr f False ?s
      = (Inr (Some (Result ''GoldRoger'' t ''text'')), ?s'\<lparr>input_stream_active := False\<rparr>)" .
  have "listen_and_respond cfg tr
           (inactive pre @ active (a # acts) @ inactive post @ (f, False) # q) s0
          = listen_and_respond cfg tr ((f, False) # q) ?s"
    by (rule run_until_pause [OF assms(1,2)])
  also have "\<dots> = (Inr (Result ''GoldRoger'' t ''text''), ?s'\<lparr>input_stream_active := False\<rparr>, q)"
    using h by simp
  finally have run: "listen_and_respond cfg tr
           (inactive pre @ active (a # acts) @ inactive post @ (f, False) # q) s0
      = (Inr (Result ''GoldRoger'' t ''text''), ?s'\<lparr>input_stream_active := False\<rparr>, q)" .
  have st: "?s'\<lparr>input_stream_active := False\<rparr>
      = s0\<lparr>buffer := (buffer s0)\<lparr>queue := lookback ?C (pre @ [a])\<rparr>,
           samples := lookback ?C (pre @ [a]) @ acts @ post @ [f],
           recording_started := True,
           gap_counter := int (length post) + 1,
           input_stream_active := False\<rparr>"
    by (cases s0) simp
  show ?thesis by (simp only: run st)
qed

section \<open>Properties of the segmentation\<close>

text \<open>
  C6. An active frame that arrives while recording, whatever the value of the gap counter,
  yields no result, is appended to the accumulated samples (none of which is dropped),
  and sets the gap counter to 0. Nothing else in the state changes.
\<close>

theorem active_frame_while_recording:
  assumes "recording_started s"
  shows "handle_audio_sample cfg transcribe f True s
           = (Inr None, s\<lparr>samples := samples s @ [f], gap_counter := 0\<rparr>)"
  using assms by (simp add: handle_audio_sample_def process_activated_audio_def)

theorem active_frame_while_recording_witness:
  "recording_started
     \<lparr>samples = [''a'', ''b'', ''c'', ''d''], buffer = \<lparr>queue = [''a''], maxsize = 4\<rparr>,
      recording_started = True, gap_counter = 3, input_stream_active = True\<rparr>
   \<and> handle_audio_sample scenario_config echo ''e'' True
       \<lparr>samples = [''a'', ''b'', ''c'', ''d''], buffer = \<lparr>queue = [''a''], maxsize = 4\<rparr>,
        recording_started = True, gap_counter = 3, input_stream_active = True\<rparr>
     = (Inr None,
        \<lparr>samples = [''a'', ''b'', ''c'', ''d'', ''e''], buffer = \<lparr>queue = [''a''], maxsize = 4\<rparr>,
         recording_started = True, gap_counter = 0, input_stream_active = True\<rparr>)"
  using active_frame_while_recording
    [of "\<lparr>samples = [''a'', ''b'', ''c'', ''d''], buffer = \<lparr>queue = [''a''], maxsize = 4\<rparr>,
         recording_started = True, gap_counter = 3, input_stream_active = True\<rparr>"
        scenario_config echo "''e''"]
  by simp

text \<open>
  C9. \<open>reset\<close>, in any state, yields no result and leaves the recogniser not recording,
  with no accumulated samples, a gap counter of 0 and an empty look-back buffer; a
  second \<open>reset\<close> changes nothing more.
\<close>

theorem reset_clears_everything:
  "fst (reset s) = None
   \<and> \<not> recording_started (snd (reset s))
   \<and> samples (snd (reset s)) = []
   \<and> gap_counter (snd (reset s)) = 0
   \<and> queue (buffer (snd (reset s))) = []
   \<and> reset (snd (reset s)) = reset s"
  by (simp add: reset_def)

text \<open>
  C10. When the pause limit is reached while recording and the transcription function
  returns \<open>None\<close> or the empty text, frame handling yields no result and no reset
  happens: the recogniser is still recording, and the accumulated samples (with the
  frame just handled) are kept. The listening loop goes on with the next queued frame.
\<close>

theorem falsy_text_keeps_recording:
  assumes "recording_started s"
    and "VAD_SIZE cfg \<noteq> 0"
    and "PAUSE_LIMIT cfg div VAD_SIZE cfg \<le> gap_counter s + 1"
    and "transcribe (concat (samples s @ [f])) = Inr t"
    and "t = None \<or> t = Some []"
  shows "handle_audio_sample cfg transcribe f False s
           = (Inr None, s\<lparr>samples := samples s @ [f], gap_counter := gap_counter s + 1,
                            input_stream_active := False\<rparr>)
         \<and> listen_and_respond cfg transcribe ((f, False) # sample_queue) s
           = listen_and_respond cfg transcribe sample_queue
               (s\<lparr>samples := samples s @ [f], gap_counter := gap_counter s + 1,
                   input_stream_active := False\<rparr>)"
proof -
  have step: "handle_audio_sample cfg transcribe f False s
           = (Inr None, s\<lparr>samples := samples s @ [f], gap_counter := gap_counter s + 1,
                            input_stream_active := False\<rparr>)"
    using assms
    by (auto simp: handle_audio_sample_def process_activated_audio_def floordiv_def
          process_detected_audio_def asr_def Let_def)
  then show ?thesis by simp
qed

theorem falsy_text_keeps_recording_witness:
  "recording_started
     \<lparr>samples = [''a'', ''b'', ''c'', ''d''], buffer = \<lparr>queue = [''a''], maxsize = 4\<rparr>,
      recording_started = True, gap_counter = 3, input_stream_active = True\<rparr>
   \<and> VAD_SIZE scenario_config \<noteq> 0
   \<and> PAUSE_LIMIT scenario_config div VAD_SIZE scenario_config \<le> 3 + 1
   \<and> handle_audio_sample scenario_config (\<lambda>audio. Inr (Some [])) ''e'' False
       \<lparr>samples = [''a'', ''b'', ''c'', ''d''], buffer = \<lparr>queue = [''a''], maxsize = 4\<rparr>,
        recording_started = True, gap_counter = 3, input_stream_active = True\<rparr>
     = (Inr None,
        \<lparr>samples = [''a'', ''b'', ''c'', ''d'', ''e''], buffer = \<lparr>queue = [''a''], maxsize = 4\<rparr>,
         recording_started = True, gap_counter = 4, input_stream_active = False\<rparr>)"
  using falsy_text_keeps_recording
    [of "\<lparr>samples = [''a'', ''b'', ''c'', ''d''], buffer = \<lparr>queue = [''a''], maxsize = 4\<rparr>,
         recording_started = True, gap_counter = 3, input_stream_active = True\<rparr>"
        scenario_config "\<lambda>audio. Inr (Some [])" "''e''" "Some []" "[]"]
  by (simp add: scenario_config_def)

text \<open>
  C4 as stated fails. With frames of 50 ms, a buffer of four frames and a pause limit of
  four frames, five inactive frames \<open>a\<close> to \<open>e\<close>, three active frames \<open>f\<close> to \<open>h\<close>
  and four inactive frames \<open>i\<close> to \<open>l\<close> give one result, on the twelfth frame, but
  the transcribed audio has ten frames, not eleven: it starts at the third frame,
  because the activating frame takes one of the four places of the buffer.
\<close>

theorem scenario_eleven_frames_counterexample:
  "init scenario_config
     = Inr \<lparr>samples = [], buffer = \<lparr>queue = [], maxsize = 4\<rparr>,
            recording_started = False, gap_counter = 0, input_stream_active = False\<rparr>
   \<and> listen_and_respond scenario_config echo
       (inactive [''a'', ''b'', ''c'', ''d'', ''e''] @ active [''f'', ''g'', ''h'']
          @ inactive [''i'', ''j'', ''k'', ''l''])
       \<lparr>samples = [], buffer = \<lparr>queue = [], maxsize = 4\<rparr>,
        recording_started = False, gap_counter = 0, input_stream_active = False\<rparr>
     = (Inr (Result ''GoldRoger'' ''cdefghijkl'' ''text''),
        \<lparr>samples = [''c'', ''d'', ''e'', ''f'', ''g'', ''h'', ''i'', ''j'', ''k'', ''l''],
         buffer = \<lparr>queue = [''c'', ''d'', ''e'', ''f''], maxsize = 4\<rparr>,
         recording_started = True, gap_counter = 4, input_stream_active = False\<rparr>,
        [])
   \<and> length [''c'', ''d'', ''e'', ''f'', ''g'', ''h'', ''i'', ''j'', ''k'', ''l''] \<noteq> 11"
proof -
  have i: "init scenario_config
     = Inr \<lparr>samples = [], buffer = \<lparr>queue = [], maxsize = 4\<rparr>,
            recording_started = False, gap_counter = 0, input_stream_active = False\<rparr>"
    by (simp add: init_def floordiv_def scenario_config_def)
  have fresh: "freshly_reset scenario_config
     \<lparr>samples = [], buffer = \<lparr>queue = [], maxsize = 4\<rparr>,
      recording_started = False, gap_counter = 0, input_stream_active = False\<rparr>"
    by (simp add: freshly_reset_def scenario_config_def)
  have L: "PAUSE_LIMIT scenario_config div VAD_SIZE scenario_config = 4"
    and C: "BUFFER_SIZE scenario_config div VAD_SIZE scenario_config = 4"
    by (simp_all add: scenario_config_def)
  have lb: "lookback 4 [''a'', ''b'', ''c'', ''d'', ''e'', ''f''] = [''c'', ''d'', ''e'', ''f'']"
    by (simp add: lookback_def)
  have tr: "echo ''cdefghijkl'' = Inr (Some ''cdefghijkl'')"
    by (simp add: echo_def)
  have "listen_and_respond scenario_config echo
       (inactive [''a'', ''b'', ''c'', ''d'', ''e''] @ active (''f'' # [''g'', ''h''])
          @ inactive [''i'', ''j'', ''k''] @ (''l'', False) # [])
       \<lparr>samples = [], buffer = \<lparr>queue = [], maxsize = 4\<rparr>,
        recording_started = False, gap_counter = 0, input_stream_active = False\<rparr>
     = (Inr (Result ''GoldRoger'' ''cdefghijkl'' ''text''),
        \<lparr>samples = [''c'', ''d'', ''e'', ''f'', ''g'', ''h'', ''i'', ''j'', ''k'', ''l''],
         buffer = \<lparr>queue = [''c'', ''d'', ''e'', ''f''], maxsize = 4\<rparr>,
         recording_started = True, gap_counter = 4, input_stream_active = False\<rparr>,
        [])"
    using run_finalize [where tr = echo and pre = "[''a'', ''b'', ''c'', ''d'', ''e'']"
        and a = "''f''" and acts = "[''g'', ''h'']" and post = "[''i'', ''j'', ''k'']"
        and f = "''l''" and t = "''cdefghijkl''" and q = "[]", OF fresh]
      lb tr
    by (simp add: L C del: listen_and_respond.simps)
  then have "listen_and_respond scenario_config echo
       (inactive [''a'', ''b'', ''c'', ''d'', ''e''] @ active [''f'', ''g'', ''h'']
          @ inactive [''i'', ''j'', ''k'', ''l''])
       \<lparr>samples = [], buffer = \<lparr>queue = [], maxsize = 4\<rparr>,
        recording_started = False, gap_counter = 0, input_stream_active = False\<rparr>
     = (Inr (Result ''GoldRoger'' ''cdefghijkl'' ''text''),
        \<lparr>samples = [''c'', ''d'', ''e'', ''f'', ''g'', ''h'', ''i'', ''j'', ''k'', ''l''],
         buffer = \<lparr>queue = [''c'', ''d'', ''e'', ''f''], maxsize = 4\<rparr>,
         recording_started = True, gap_counter = 4, input_stream_active = False\<rparr>,
        [])"
    by (simp add: inactive_def del: listen_and_respond.simps)
  with i show ?thesis by simp
qed

text \<open>
  C4, amended. In that setting, five inactive, three active and four inactive frames give
  no result on the first eleven frames, whatever the transcription function returns.
  On the fourth trailing inactive frame the transcription function is given exactly ten
  frames: the last three inactive frames before the activation, the three active
  frames and the four trailing inactive frames. Provided that it returns a text that is
  not empty, exactly one result is returned, on that frame.
\<close>

theorem scenario_ten_frames:
  assumes "freshly_reset scenario_config s"
  shows "listen_and_respond scenario_config transcribe
           (inactive [fa, fb, fc, fd, fe] @ active [ff, fg, fh] @ inactive [fi, fj, fk]) s
           = (Inl Blocked,
              s\<lparr>buffer := (buffer s)\<lparr>queue := [fc, fd, fe, ff]\<rparr>,
                samples := [fc, fd, fe, ff, fg, fh, fi, fj, fk],
                recording_started := True, gap_counter := 3\<rparr>,
              [])
         \<and> (transcribe (concat [fc, fd, fe, ff, fg, fh, fi, fj, fk, fl]) = Inr (Some t)
              \<and> t \<noteq> [] \<longrightarrow>
            listen_and_respond scenario_config transcribe
              (inactive [fa, fb, fc, fd, fe] @ active [ff, fg, fh] @ inactive [fi, fj, fk, fl]) s
              = (Inr (Result ''GoldRoger'' t ''text''),
                 s\<lparr>buffer := (buffer s)\<lparr>queue := [fc, fd, fe, ff]\<rparr>,
                   samples := [fc, fd, fe, ff, fg, fh, fi, fj, fk, fl],
                   recording_started := True, gap_counter := 4,
                   input_stream_active := False\<rparr>,
                 []))
         \<and> length [fc, fd, fe, ff, fg, fh, fi, fj, fk, fl] = 10"
proof -
  have L: "PAUSE_LIMIT scenario_config div VAD_SIZE scenario_config = 4"
    and C: "BUFFER_SIZE scenario_config div VAD_SIZE scenario_config = 4"
    by (simp_all add: scenario_config_def)
  have lb: "lookback 4 [fa, fb, fc, fd, fe, ff] = [fc, fd, fe, ff]"
    by (simp add: lookback_def)
  have short: "int (length [fi, fj, fk])
                 < PAUSE_LIMIT scenario_config div VAD_SIZE scenario_config \<or> [fi, fj, fk] = []"
    by (simp add: L)
  have reach: "PAUSE_LIMIT scenario_config div VAD_SIZE scenario_config
                 \<le> int (length [fi, fj, fk]) + 1"
    by (simp add: L)
  have a: "listen_and_respond scenario_config transcribe
           (inactive [fa, fb, fc, fd, fe] @ active [ff, fg, fh] @ inactive [fi, fj, fk]) s
           = (Inl Blocked,
              s\<lparr>buffer := (buffer s)\<lparr>queue := [fc, fd, fe, ff]\<rparr>,
                samples := [fc, fd, fe, ff, fg, fh, fi, fj, fk],
                recording_started := True, gap_counter := 3\<rparr>,
              [])"
    using run_until_pause [OF assms(1) short, of transcribe "[fa, fb, fc, fd, fe]" ff "[fg, fh]" "[]"]
    by (simp add: C lb del: listen_and_respond.simps(2))
  have b: "transcribe (concat [fc, fd, fe, ff, fg, fh, fi, fj, fk, fl]) = Inr (Some t)
              \<and> t \<noteq> [] \<longrightarrow>
            listen_and_respond scenario_config transcribe
              (inactive [fa, fb, fc, fd, fe] @ active [ff, fg, fh] @ inactive [fi, fj, fk, fl]) s
              = (Inr (Result ''GoldRoger'' t ''text''),
                 s\<lparr>buffer := (buffer s)\<lparr>queue := [fc, fd, fe, ff]\<rparr>,
                   samples := [fc, fd, fe, ff, fg, fh, fi, fj, fk, fl],
                   recording_started := True, gap_counter := 4,
                   input_stream_active := False\<rparr>,
                 [])"
  proof
    assume h: "transcribe (concat [fc, fd, fe, ff, fg, fh, fi, fj, fk, fl]) = Inr (Some t)
                 \<and> t \<noteq> []"
    have "listen_and_respond scenario_config transcribe
           (inactive [fa, fb, fc, fd, fe] @ active (ff # [fg, fh]) @ inactive [fi, fj, fk]
              @ (fl, False) # []) s
           = (Inr (Result ''GoldRoger'' t ''text''),
              s\<lparr>buffer := (buffer s)\<lparr>queue :=
                      lookback (BUFFER_SIZE scenario_config div VAD_SIZE scenario_config)
                        ([fa, fb, fc, fd, fe] @ [ff])\<rparr>,
                 samples := lookback (BUFFER_SIZE scenario_config div VAD_SIZE scenario_config)
                        ([fa, fb, fc, fd, fe] @ [ff]) @ [fg, fh] @ [fi, fj, fk] @ [fl],
                 recording_started := True,
                 gap_counter := int (length [fi, fj, fk]) + 1,
                 input_stream_active := False\<rparr>,
              [])"
    proof (rule run_finalize [OF assms(1) short reach])
      show "transcribe (concat (lookback (BUFFER_SIZE scenario_config div VAD_SIZE scenario_config)
                          ([fa, fb, fc, fd, fe] @ [ff]) @ [fg, fh] @ [fi, fj, fk] @ [fl]))
              = Inr (Some t)"
        using h by (simp add: C lb)
      show "t \<noteq> []" using h by simp
    qed
    then show "listen_and_respond scenario_config transcribe
              (inactive [fa, fb, fc, fd, fe] @ active [ff, fg, fh] @ inactive [fi, fj, fk, fl]) s
              = (Inr (Result ''GoldRoger'' t ''text''),
                 s\<lparr>buffer := (buffer s)\<lparr>queue := [fc, fd, fe, ff]\<rparr>,
                   samples := [fc, fd, fe, ff, fg, fh, fi, fj, fk, fl],
                   recording_started := True, gap_counter := 4,
                   input_stream_active := False\<rparr>,
                 [])"
      by (simp add: C lb inactive_def del: listen_and_respond.simps(2))
  qed
  from a b show ?thesis by simp
qed

theorem scenario_ten_frames_witness:
  "freshly_reset scenario_config
     (\<lparr>samples = [], buffer = \<lparr>queue = [], maxsize = 4\<rparr>,
       recording_started = False, gap_counter = 0, input_stream_active = True\<rparr>
      :: char vad)
   \<and> echo (concat [''c'', ''d'', ''e'', ''f'', ''g'', ''h'', ''i'', ''j'', ''k'', ''l''])
       = Inr (Some ''cdefghijkl'')
   \<and> listen_and_respond scenario_config echo
       (inactive [''a'', ''b'', ''c'', ''d'', ''e''] @ active [''f'', ''g'', ''h'']
          @ inactive [''i'', ''j'', ''k''])
       \<lparr>samples = [], buffer = \<lparr>queue = [], maxsize = 4\<rparr>,
        recording_started = False, gap_counter = 0, input_stream_active = True\<rparr>
     = (Inl Blocked,
        \<lparr>samples = [''c'', ''d'', ''e'', ''f'', ''g'', ''h'', ''i'', ''j'', ''k''],
         buffer = \<lparr>queue = [''c'', ''d'', ''e'', ''f''], maxsize = 4\<rparr>,
         recording_started = True, gap_counter = 3, input_stream_active = True\<rparr>,
        [])
   \<and> listen_and_respond scenario_config echo
       (inactive [''a'', ''b'', ''c'', ''d'', ''e''] @ active [''f'', ''g'', ''h'']
          @ inactive [''i'', ''j'', ''k'', ''l''])
       \<lparr>samples = [], buffer = \<lparr>queue = [], maxsize = 4\<rparr>,
        recording_started = False, gap_counter = 0, input_stream_active = True\<rparr>
     = (Inr (Result ''GoldRoger'' ''cdefghijkl'' ''text''),
        \<lparr>samples = [''c'', ''d'', ''e'', ''f'', ''g'', ''h'', ''i'', ''j'', ''k'', ''l''],
         buffer = \<lparr>queue = [''c'', ''d'', ''e'', ''f''], maxsize = 4\<rparr>,
         recording_started = True, gap_counter = 4, input_stream_active = False\<rparr>,
        [])"
proof -
  have fresh: "freshly_reset scenario_config
     \<lparr>samples = [], buffer = \<lparr>queue = [], maxsize = 4\<rparr>,
      recording_started = False, gap_counter = 0, input_stream_active = True\<rparr>"
    by (simp add: freshly_reset_def scenario_config_def)
  have tr: "echo (concat [''c'', ''d'', ''e'', ''f'', ''g'', ''h'', ''i'', ''j'', ''k'', ''l''])
              = Inr (Some ''cdefghijkl'')"
    by (simp add: echo_def)
  have ne: "''cdefghijkl'' \<noteq> []" by simp
  from scenario_ten_frames
    [where transcribe = echo and fa = "''a''" and fb = "''b''" and fc = "''c''"
       and fd = "''d''" and fe = "''e''" and ff = "''f''" and fg = "''g''" and fh = "''h''"
       and fi = "''i''" and fj = "''j''" and fk = "''k''" and fl = "''l''"
       and t = "''cdefghijkl''", OF fresh]
    fresh tr ne
  show ?thesis by (simp del: listen_and_respond.simps)
qed

lemma listen_recording_result:
  assumes "recording_started s"
    and "listen_and_respond cfg tr q s = (Inr r, s', rest)"
  shows "\<exists>used. q = used @ rest \<and> used \<noteq> [] \<and> samples s' = samples s @ map fst used
           \<and> tr (concat (samples s')) = Inr (Some (content r))"
  using assms
proof (induction q arbitrary: s)
  case Nil
  then show ?case by simp
next
  case (Cons p q)
  obtain f v where p: "p = (f, v)" by (cases p)
  obtain out s1 where h: "handle_audio_sample cfg tr f v s = (out, s1)"
    by (cases "handle_audio_sample cfg tr f v s")
  from handle_recording_state [OF Cons.prems(1), of cfg tr f v] h
  have s1: "samples s1 = samples s @ [f]" "recording_started s1" by simp_all
  show ?case
  proof (cases out)
    case (Inl e)
    with Cons.prems(2) p h show ?thesis by simp
  next
    case (Inr ro)
    show ?thesis
    proof (cases ro)
      case None
      with Inr Cons.prems(2) p h
      have "listen_and_respond cfg tr q s1 = (Inr r, s', rest)" by simp
      from Cons.IH [OF s1(2) this] obtain used where
        u: "q = used @ rest" "samples s' = samples s1 @ map fst used"
           "tr (concat (samples s')) = Inr (Some (content r))"
        by blast
      have "p # q = (p # used) @ rest \<and> p # used \<noteq> []
            \<and> samples s' = samples s @ map fst (p # used)
            \<and> tr (concat (samples s')) = Inr (Some (content r))"
        using u s1(1) p by simp
      then show ?thesis by blast
    next
      case (Some r')
      with Inr Cons.prems(2) p h have e: "r' = r" "s1 = s'" "rest = q" by simp_all
      from Some Inr h e have "handle_audio_sample cfg tr f v s = (Inr (Some r), s')" by simp
      from handle_recording_result [OF Cons.prems(1) this]
      have "tr (concat (samples s')) = Inr (Some (content r))" by simp
      then have "p # q = [p] @ rest \<and> [p] \<noteq> []
            \<and> samples s' = samples s @ map fst [p]
            \<and> tr (concat (samples s')) = Inr (Some (content r))"
        using e s1(1) p by simp
      then show ?thesis by blast
    qed
  qed
qed

lemma hd_lookback:
  assumes "0 < C" and "xs \<noteq> []"
  shows "hd (lookback C xs @ ys) = xs ! (length xs - nat C)"
proof -
  from assms have n: "length xs - nat C < length xs" by (cases xs) auto
  then have "lookback C xs \<noteq> []" using assms(1) by (simp add: lookback_def)
  then have "hd (lookback C xs @ ys) = hd (drop (length xs - nat C) xs)"
    using assms(1) by (simp add: lookback_def)
  also have "\<dots> = xs ! (length xs - nat C)" using n by (simp add: hd_drop_conv_nth)
  finally show ?thesis .
qed

lemma scenario_full_buffer_run:
  "listen_and_respond scenario_config echo
       (inactive [''a'', ''b'', ''c'', ''d''] @ (''e'', True)
          # inactive [''f'', ''g'', ''h'', ''i''])
       \<lparr>samples = [], buffer = \<lparr>queue = [], maxsize = 4\<rparr>,
        recording_started = False, gap_counter = 0, input_stream_active = False\<rparr>
     = (Inr (Result ''GoldRoger'' ''bcdefghi'' ''text''),
        \<lparr>samples = [''b'', ''c'', ''d'', ''e'', ''f'', ''g'', ''h'', ''i''],
         buffer = \<lparr>queue = [''b'', ''c'', ''d'', ''e''], maxsize = 4\<rparr>,
         recording_started = True, gap_counter = 4, input_stream_active = False\<rparr>,
        [])"
proof -
  have fresh: "freshly_reset scenario_config
     \<lparr>samples = [], buffer = \<lparr>queue = [], maxsize = 4\<rparr>,
      recording_started = False, gap_counter = 0, input_stream_active = False\<rparr>"
    by (simp add: freshly_reset_def scenario_config_def)
  have L: "PAUSE_LIMIT scenario_config div VAD_SIZE scenario_config = 4"
    and C: "BUFFER_SIZE scenario_config div VAD_SIZE scenario_config = 4"
    by (simp_all add: scenario_config_def)
  have lb: "lookback 4 [''a'', ''b'', ''c'', ''d'', ''e''] = [''b'', ''c'', ''d'', ''e'']"
    by (simp add: lookback_def)
  have tr: "echo ''bcdefghi'' = Inr (Some ''bcdefghi'')"
    by (simp add: echo_def)
  have "listen_and_respond scenario_config echo
       (inactive [''a'', ''b'', ''c'', ''d''] @ active (''e'' # [])
          @ inactive [''f'', ''g'', ''h''] @ (''i'', False) # [])
       \<lparr>samples = [], buffer = \<lparr>queue = [], maxsize = 4\<rparr>,
        recording_started = False, gap_counter = 0, input_stream_active = False\<rparr>
     = (Inr (Result ''GoldRoger'' ''bcdefghi'' ''text''),
        \<lparr>samples = [''b'', ''c'', ''d'', ''e'', ''f'', ''g'', ''h'', ''i''],
         buffer = \<lparr>queue = [''b'', ''c'', ''d'', ''e''], maxsize = 4\<rparr>,
         recording_started = True, gap_counter = 4, input_stream_active = False\<rparr>,
        [])"
    using run_finalize [where tr = echo and pre = "[''a'', ''b'', ''c'', ''d'']"
        and a = "''e''" and acts = "[]" and post = "[''f'', ''g'', ''h'']"
        and f = "''i''" and t = "''bcdefghi''" and q = "[]", OF fresh]
      lb tr
    by (simp add: L C del: listen_and_respond.simps)
  then show ?thesis
    by (simp add: inactive_def active_def del: listen_and_respond.simps)
qed

text \<open>
  C2 as stated fails. With a buffer of four frames, four inactive frames \<open>a\<close> to \<open>d\<close>
  and the activating frame \<open>e\<close> (so \<open>k = C = 4\<close>), the utterance that is transcribed
  begins with the second frame \<open>b\<close>, not with the first.
\<close>

theorem first_frame_kept_counterexample:
  "listen_and_respond scenario_config echo
       (inactive [''a'', ''b'', ''c'', ''d''] @ (''e'', True)
          # inactive [''f'', ''g'', ''h'', ''i''])
       \<lparr>samples = [], buffer = \<lparr>queue = [], maxsize = 4\<rparr>,
        recording_started = False, gap_counter = 0, input_stream_active = False\<rparr>
     = (Inr (Result ''GoldRoger'' ''bcdefghi'' ''text''),
        \<lparr>samples = [''b'', ''c'', ''d'', ''e'', ''f'', ''g'', ''h'', ''i''],
         buffer = \<lparr>queue = [''b'', ''c'', ''d'', ''e''], maxsize = 4\<rparr>,
         recording_started = True, gap_counter = 4, input_stream_active = False\<rparr>,
        [])
   \<and> hd [''b'', ''c'', ''d'', ''e'', ''f'', ''g'', ''h'', ''i''] \<noteq> ''a''"
  using scenario_full_buffer_run by simp

text \<open>
  C2, amended. From a freshly reset recogniser with a buffer of \<open>C \<ge> 1\<close> frames, after
  \<open>k\<close> inactive frames and an active one, the first utterance that is transcribed
  consists of the last \<open>min (k + 1) C\<close> of those \<open>k + 1\<close> frames followed by the
  frames handled since. It begins with the first frame when \<open>k < C\<close>, and with frame
  number \<open>k - C + 2\<close> when \<open>k \<ge> C\<close>: the activating frame takes one place of the
  buffer.
\<close>

theorem lookback_at_activation:
  assumes "freshly_reset cfg s"
    and "C = BUFFER_SIZE cfg div VAD_SIZE cfg"
    and "0 < C"
    and "listen_and_respond cfg transcribe (inactive pre @ (a, True) # later) s
           = (Inr r, s', rest)"
  shows "(\<exists>used. later = used @ rest
            \<and> samples s' = lookback C (pre @ [a]) @ map fst used
            \<and> transcribe (concat (samples s')) = Inr (Some (content r)))
         \<and> (int (length pre) < C \<longrightarrow> hd (samples s') = hd (pre @ [a]))
         \<and> (C \<le> int (length pre) \<longrightarrow>
               hd (samples s') = (pre @ [a]) ! (length pre + 1 - nat C))"
proof -
  let ?s1 = "s\<lparr>buffer := (buffer s)\<lparr>queue := lookback C (pre @ [a])\<rparr>,
                samples := lookback C (pre @ [a]), recording_started := True\<rparr>"
  from assms(4) listen_activation [OF assms(1), of transcribe pre a later]
  have "listen_and_respond cfg transcribe later ?s1 = (Inr r, s', rest)"
    by (simp add: assms(2))
  from listen_recording_result [OF _ this] obtain used where
    u: "later = used @ rest" "samples s' = lookback C (pre @ [a]) @ map fst used"
       "transcribe (concat (samples s')) = Inr (Some (content r))"
    by auto
  have h: "hd (samples s') = (pre @ [a]) ! (length (pre @ [a]) - nat C)"
    unfolding u(2) by (rule hd_lookback [OF assms(3)]) simp
  have "int (length pre) < C \<longrightarrow> hd (samples s') = hd (pre @ [a])"
  proof
    assume "int (length pre) < C"
    then have "length (pre @ [a]) - nat C = 0" by simp
    with h show "hd (samples s') = hd (pre @ [a])" by (simp add: hd_conv_nth)
  qed
  moreover have "C \<le> int (length pre) \<longrightarrow>
               hd (samples s') = (pre @ [a]) ! (length pre + 1 - nat C)"
    using h by simp
  ultimately show ?thesis using u by blast
qed

theorem lookback_at_activation_witness:
  "freshly_reset scenario_config
     (\<lparr>samples = [], buffer = \<lparr>queue = [], maxsize = 4\<rparr>,
       recording_started = False, gap_counter = 0, input_stream_active = False\<rparr>
      :: char vad)
   \<and> (0::int) < 4
   \<and> (\<exists>used. inactive [''f'', ''g'', ''h'', ''i''] = used @ []
         \<and> [''b'', ''c'', ''d'', ''e'', ''f'', ''g'', ''h'', ''i'']
             = lookback 4 ([''a'', ''b'', ''c'', ''d''] @ [''e'']) @ map fst used
         \<and> echo (concat [''b'', ''c'', ''d'', ''e'', ''f'', ''g'', ''h'', ''i''])
             = Inr (Some ''bcdefghi''))
   \<and> hd [''b'', ''c'', ''d'', ''e'', ''f'', ''g'', ''h'', ''i'']
       = ([''a'', ''b'', ''c'', ''d''] @ [''e'']) ! (length [''a'', ''b'', ''c'', ''d''] + 1 - nat 4)"
proof -
  have fresh: "freshly_reset scenario_config
     \<lparr>samples = [], buffer = \<lparr>queue = [], maxsize = 4\<rparr>,
      recording_started = False, gap_counter = 0, input_stream_active = False\<rparr>"
    by (simp add: freshly_reset_def scenario_config_def)
  have C: "4 = BUFFER_SIZE scenario_config div VAD_SIZE scenario_config"
    by (simp add: scenario_config_def)
  have pos: "(0::int) < 4" by simp
  from lookback_at_activation [OF fresh C pos scenario_full_buffer_run] fresh
  show ?thesis by (simp add: lookback_def inactive_def echo_def)
qed

lemma reachable_listen:
  assumes "reachable cfg tr s"
  shows "reachable cfg tr (fst (snd (listen_and_respond cfg tr q s)))"
  using assms
proof (induction q arbitrary: s)
  case Nil
  then show ?case by simp
next
  case (Cons p q)
  obtain f v where p: "p = (f, v)" by (cases p)
  obtain out s1 where h: "handle_audio_sample cfg tr f v s = (out, s1)"
    by (cases "handle_audio_sample cfg tr f v s")
  from reachable_handle [OF Cons.prems, of f v] h have r1: "reachable cfg tr s1" by simp
  show ?case
  proof (cases out)
    case (Inl e)
    with p h r1 show ?thesis by simp
  next
    case (Inr ro)
    with p h r1 Cons.IH [OF r1] show ?thesis by (cases ro) simp_all
  qed
qed

lemma scenario_idle_full_reachable:
  "reachable scenario_config echo
     \<lparr>samples = [], buffer = \<lparr>queue = [''a'', ''b'', ''c'', ''d''], maxsize = 4\<rparr>,
      recording_started = False, gap_counter = 0, input_stream_active = False\<rparr>"
proof -
  let ?s = "\<lparr>samples = [], buffer = \<lparr>queue = [], maxsize = 4\<rparr>,
             recording_started = False, gap_counter = 0, input_stream_active = False\<rparr> :: char vad"
  have i: "init scenario_config = Inr ?s"
    by (simp add: init_def floordiv_def scenario_config_def)
  have b: "buffer_bounded ?s" by (simp add: buffer_bounded_def)
  have lb: "lookback 4 [''a'', ''b'', ''c'', ''d''] = [''a'', ''b'', ''c'', ''d'']"
    by (simp add: lookback_def)
  have "listen_and_respond scenario_config echo (inactive [''a'', ''b'', ''c'', ''d''] @ []) ?s
          = (Inl Blocked,
             \<lparr>samples = [], buffer = \<lparr>queue = [''a'', ''b'', ''c'', ''d''], maxsize = 4\<rparr>,
              recording_started = False, gap_counter = 0, input_stream_active = False\<rparr>, [])"
    using listen_inactive_idle [OF b, of scenario_config echo "[''a'', ''b'', ''c'', ''d'']" "[]"] lb
    by simp
  with reachable_listen [OF reachable_init [OF i], of echo "inactive [''a'', ''b'', ''c'', ''d''] @ []"]
  show ?thesis by simp
qed

text \<open>
  C5 as stated fails. With \<open>BUFFER_SIZE // VAD_SIZE = 0\<close> the buffer is unbounded:
  after three inactive frames from a freshly built recogniser it holds all three, which
  is more than the capacity of 0, and no frame was removed.
\<close>

theorem buffer_bound_counterexample:
  "BUFFER_SIZE zero_buffer_config div VAD_SIZE zero_buffer_config = 0
   \<and> init zero_buffer_config
     = Inr (\<lparr>samples = [], buffer = \<lparr>queue = [], maxsize = 0\<rparr>,
             recording_started = False, gap_counter = 0, input_stream_active = False\<rparr>
            :: char vad)
   \<and> listen_and_respond zero_buffer_config echo
       [(''a'', False), (''b'', False), (''c'', False)]
       \<lparr>samples = [], buffer = \<lparr>queue = [], maxsize = 0\<rparr>,
        recording_started = False, gap_counter = 0, input_stream_active = False\<rparr>
     = (Inl Blocked,
        \<lparr>samples = [], buffer = \<lparr>queue = [''a'', ''b'', ''c''], maxsize = 0\<rparr>,
         recording_started = False, gap_counter = 0, input_stream_active = False\<rparr>,
        [])
   \<and> \<not> int (length [''a'', ''b'', ''c'']) \<le> 0"
proof -
  let ?s0 = "\<lparr>samples = [], buffer = \<lparr>queue = [], maxsize = 0\<rparr>,
             recording_started = False, gap_counter = 0, input_stream_active = False\<rparr> :: char vad"
  have c: "BUFFER_SIZE zero_buffer_config div VAD_SIZE zero_buffer_config = 0"
    by (simp add: zero_buffer_config_def)
  have i: "init zero_buffer_config = Inr ?s0"
    by (simp add: init_def floordiv_def zero_buffer_config_def)
  have b: "buffer_bounded ?s0" by (simp add: buffer_bounded_def)
  have lb: "lookback 0 [''a'', ''b'', ''c''] = [''a'', ''b'', ''c'']"
    by (simp add: lookback_def)
  have "listen_and_respond zero_buffer_config echo
       (inactive [''a'', ''b'', ''c''] @ []) ?s0
     = (Inl Blocked,
        \<lparr>samples = [], buffer = \<lparr>queue = [''a'', ''b'', ''c''], maxsize = 0\<rparr>,
         recording_started = False, gap_counter = 0, input_stream_active = False\<rparr>,
        [])"
    using listen_inactive_idle [OF b, of zero_buffer_config echo "[''a'', ''b'', ''c'']" "[]"] lb
    by simp
  then have "listen_and_respond zero_buffer_config echo
       [(''a'', False), (''b'', False), (''c'', False)] ?s0
     = (Inl Blocked,
        \<lparr>samples = [], buffer = \<lparr>queue = [''a'', ''b'', ''c''], maxsize = 0\<rparr>,
         recording_started = False, gap_counter = 0, input_stream_active = False\<rparr>,
        [])"
    by (simp add: inactive_def del: listen_and_respond.simps)
  with c i show ?thesis by simp
qed

text \<open>
  C5, amended. With a buffer of \<open>C \<ge> 1\<close> frames, the look-back buffer never holds more than \<open>C\<close>
  frames in any state the recogniser can reach; a frame handled while not recording and
  with the buffer full removes the oldest frame and is put last; and after \<open>N \<ge> C\<close>
  inactive frames from a freshly reset recogniser the buffer holds exactly the last \<open>C\<close>
  of them, in the order of arrival.
\<close>

theorem buffer_keeps_most_recent:
  assumes "C = BUFFER_SIZE cfg div VAD_SIZE cfg"
    and "0 < C"
  shows "(reachable cfg transcribe s \<longrightarrow> int (length (queue (buffer s))) \<le> C)
         \<and> (reachable cfg transcribe s \<and> \<not> recording_started s
              \<and> int (length (queue (buffer s))) = C \<longrightarrow>
               queue (buffer (snd (handle_audio_sample cfg transcribe f v s)))
                 = tl (queue (buffer s)) @ [f])
         \<and> (freshly_reset cfg fresh \<and> C \<le> int (length fs) \<longrightarrow>
               listen_and_respond cfg transcribe (inactive fs) fresh
                 = (Inl Blocked,
                    fresh\<lparr>buffer := (buffer fresh)\<lparr>queue := drop (length fs - nat C) fs\<rparr>\<rparr>,
                    [])
               \<and> int (length (drop (length fs - nat C) fs)) = C)"
proof (intro conjI impI)
  assume "reachable cfg transcribe s"
  from reachable_invariant [OF this] assms
  show "int (length (queue (buffer s))) \<le> C" by (auto simp: buffer_bounded_def)
next
  assume h: "reachable cfg transcribe s \<and> \<not> recording_started s
              \<and> int (length (queue (buffer s))) = C"
  from reachable_invariant [of cfg transcribe s] h assms
  have b: "buffer_bounded s" and m: "maxsize (buffer s) = C" by simp_all
  from h m assms(2) have full: "Queue_full (buffer s)" by (simp add: Queue_full_def)
  have "queue (buffer (snd (handle_audio_sample cfg transcribe f v s)))
          = lookback (maxsize (buffer s)) (queue (buffer s) @ [f])"
    using handle_idle [OF b, of cfg transcribe f v] h by (simp add: Let_def)
  also have "\<dots> = tl (queue (buffer s)) @ [f]"
    using evict_is_lookback [OF b, of f] full by simp
  finally show "queue (buffer (snd (handle_audio_sample cfg transcribe f v s)))
                 = tl (queue (buffer s)) @ [f]" .
next
  assume h: "freshly_reset cfg fresh \<and> C \<le> int (length fs)"
  then have fr: "freshly_reset cfg fresh" by simp
  from fr have q: "queue (buffer fresh) = []" "maxsize (buffer fresh) = C"
    "\<not> recording_started fresh"
    by (simp_all add: freshly_reset_def assms(1))
  have "listen_and_respond cfg transcribe (inactive fs @ []) fresh
          = (Inl Blocked,
             fresh\<lparr>buffer := (buffer fresh)\<lparr>queue := lookback C fs\<rparr>\<rparr>, [])"
    using listen_inactive_idle [OF fresh_bounded [OF fr] q(3), of cfg transcribe fs "[]"] q
    by simp
  then show "listen_and_respond cfg transcribe (inactive fs) fresh
                 = (Inl Blocked,
                    fresh\<lparr>buffer := (buffer fresh)\<lparr>queue := drop (length fs - nat C) fs\<rparr>\<rparr>,
                    [])"
    using assms(2) by (simp add: lookback_def)
next
  assume h: "freshly_reset cfg fresh \<and> C \<le> int (length fs)"
  with assms(2) have "nat C \<le> length fs" by linarith
  then have "length fs - (length fs - nat C) = nat C" by simp
  with assms(2) show "int (length (drop (length fs - nat C) fs)) = C" by simp
qed

theorem buffer_keeps_most_recent_witness:
  "(0::int) < 4
   \<and> reachable scenario_config echo
       \<lparr>samples = [], buffer = \<lparr>queue = [''a'', ''b'', ''c'', ''d''], maxsize = 4\<rparr>,
        recording_started = False, gap_counter = 0, input_stream_active = False\<rparr>
   \<and> queue (buffer (snd (handle_audio_sample scenario_config echo ''e'' False
       \<lparr>samples = [], buffer = \<lparr>queue = [''a'', ''b'', ''c'', ''d''], maxsize = 4\<rparr>,
        recording_started = False, gap_counter = 0, input_stream_active = False\<rparr>)))
     = [''b'', ''c'', ''d'', ''e'']
   \<and> freshly_reset scenario_config
       (\<lparr>samples = [], buffer = \<lparr>queue = [], maxsize = 4\<rparr>,
         recording_started = False, gap_counter = 0, input_stream_active = False\<rparr>
        :: char vad)
   \<and> listen_and_respond scenario_config echo
       (inactive [''a'', ''b'', ''c'', ''d'', ''e''])
       \<lparr>samples = [], buffer = \<lparr>queue = [], maxsize = 4\<rparr>,
        recording_started = False, gap_counter = 0, input_stream_active = False\<rparr>
     = (Inl Blocked,
        \<lparr>samples = [], buffer = \<lparr>queue = [''b'', ''c'', ''d'', ''e''], maxsize = 4\<rparr>,
         recording_started = False, gap_counter = 0, input_stream_active = False\<rparr>,
        [])"
proof -
  have C: "4 = BUFFER_SIZE scenario_config div VAD_SIZE scenario_config"
    by (simp add: scenario_config_def)
  have pos: "(0::int) < 4" by simp
  have fresh: "freshly_reset scenario_config
       (\<lparr>samples = [], buffer = \<lparr>queue = [], maxsize = 4\<rparr>,
         recording_started = False, gap_counter = 0, input_stream_active = False\<rparr>
        :: char vad)"
    by (simp add: freshly_reset_def scenario_config_def)
  from fresh scenario_idle_full_reachable buffer_keeps_most_recent
    [OF C pos, where transcribe = echo and f = "''e''" and v = False
       and s = "\<lparr>samples = [], buffer = \<lparr>queue = [''a'', ''b'', ''c'', ''d''], maxsize = 4\<rparr>,
                 recording_started = False, gap_counter = 0, input_stream_active = False\<rparr>"
       and fresh = "\<lparr>samples = [], buffer = \<lparr>queue = [], maxsize = 4\<rparr>,
                 recording_started = False, gap_counter = 0, input_stream_active = False\<rparr>"
       and fs = "[''a'', ''b'', ''c'', ''d'', ''e'']"]
  show ?thesis by (simp del: listen_and_respond.simps)
qed

text \<open>
  C7. An active frame handled while not recording, in any state the recogniser can reach:
  the frame is put into the look-back buffer (after the oldest frame was removed, when
  the buffer was full), the accumulated samples become the contents of the buffer in
  order, so that the frame is their last element and is not added again, recording
  starts, no result is returned, and the gap counter is 0 (it is 0 in every reachable
  state that is not recording, and activation leaves it as it is).
\<close>

theorem activation_snapshot:
  assumes "reachable cfg transcribe s"
    and "\<not> recording_started s"
    and "kept = (if Queue_full (buffer s) then tl (queue (buffer s)) else queue (buffer s))"
  shows "handle_audio_sample cfg transcribe f True s
           = (Inr None,
              s\<lparr>buffer := (buffer s)\<lparr>queue := kept @ [f]\<rparr>,
                samples := kept @ [f],
                recording_started := True\<rparr>)
         \<and> gap_counter (snd (handle_audio_sample cfg transcribe f True s)) = 0
         \<and> recording_started (snd (handle_audio_sample cfg transcribe f True s))
         \<and> samples (snd (handle_audio_sample cfg transcribe f True s))
             = queue (buffer (snd (handle_audio_sample cfg transcribe f True s)))
         \<and> length (samples (snd (handle_audio_sample cfg transcribe f True s)))
             = length kept + 1"
proof -
  from reachable_invariant [OF assms(1)] assms(2)
  have b: "buffer_bounded s" and g: "gap_counter s = 0" by simp_all
  have "handle_audio_sample cfg transcribe f True s
           = (Inr None,
              s\<lparr>buffer := (buffer s)\<lparr>queue := kept @ [f]\<rparr>,
                samples := kept @ [f],
                recording_started := True\<rparr>)"
    using assms(2,3) manage_step [OF b, of f True]
    by (simp add: handle_audio_sample_def Let_def)
  then show ?thesis using g by simp
qed

theorem activation_snapshot_witness:
  "reachable scenario_config echo
     \<lparr>samples = [], buffer = \<lparr>queue = [''a'', ''b'', ''c'', ''d''], maxsize = 4\<rparr>,
      recording_started = False, gap_counter = 0, input_stream_active = False\<rparr>
   \<and> handle_audio_sample scenario_config echo ''e'' True
       \<lparr>samples = [], buffer = \<lparr>queue = [''a'', ''b'', ''c'', ''d''], maxsize = 4\<rparr>,
        recording_started = False, gap_counter = 0, input_stream_active = False\<rparr>
     = (Inr None,
        \<lparr>samples = [''b'', ''c'', ''d'', ''e''],
         buffer = \<lparr>queue = [''b'', ''c'', ''d'', ''e''], maxsize = 4\<rparr>,
         recording_started = True, gap_counter = 0, input_stream_active = False\<rparr>)"
  using activation_snapshot
    [OF scenario_idle_full_reachable _ refl, of "''e''"]
    scenario_idle_full_reachable
  by (simp add: Queue_full_def)

lemma handle_unbounded_idle:
  assumes "maxsize (buffer s) \<le> 0" and "\<not> recording_started s"
  shows "handle_audio_sample cfg tr f v s
           = (Inr None,
              if v then s\<lparr>buffer := (buffer s)\<lparr>queue := queue (buffer s) @ [f]\<rparr>,
                          samples := queue (buffer s) @ [f],
                          recording_started := True\<rparr>
              else s\<lparr>buffer := (buffer s)\<lparr>queue := queue (buffer s) @ [f]\<rparr>\<rparr>)"
proof -
  from assms(1) have b: "buffer_bounded s" by (simp add: buffer_bounded_def)
  from assms(1) have nf: "\<not> Queue_full (buffer s)" by (simp add: Queue_full_def)
  show ?thesis
    using assms(2) nf manage_step [OF b, of f v]
    by (simp add: handle_audio_sample_def Let_def)
qed

lemma handle_recording_no_error:
  assumes "recording_started s" and "VAD_SIZE cfg \<noteq> 0"
    and "\<forall>audio. \<exists>t. tr audio = Inr t"
  shows "\<exists>r. fst (handle_audio_sample cfg tr f v s) = Inr r"
proof -
  from assms(3) obtain t where "tr (concat (samples s @ [f])) = Inr t" by blast
  with assms(1,2) show ?thesis
    by (auto simp: handle_audio_sample_def process_activated_audio_def floordiv_def
        process_detected_audio_def asr_def Let_def split: option.splits)
qed

text \<open>
  C8 as stated fails. With \<open>BUFFER_SIZE // VAD_SIZE = 0\<close> the buffer is a
  \<open>queue.Queue(maxsize=0)\<close>, which is unbounded: an inactive frame \<open>a\<close> is kept in
  the buffer, and the snapshot taken when the active frame \<open>b\<close> arrives holds both
  frames.
\<close>

theorem zero_capacity_counterexample:
  "init zero_buffer_config
     = Inr (\<lparr>samples = [], buffer = \<lparr>queue = [], maxsize = 0\<rparr>,
             recording_started = False, gap_counter = 0, input_stream_active = False\<rparr>
            :: char vad)
   \<and> handle_audio_sample zero_buffer_config echo ''a'' False
       \<lparr>samples = [], buffer = \<lparr>queue = [], maxsize = 0\<rparr>,
        recording_started = False, gap_counter = 0, input_stream_active = False\<rparr>
     = (Inr None,
        \<lparr>samples = [], buffer = \<lparr>queue = [''a''], maxsize = 0\<rparr>,
         recording_started = False, gap_counter = 0, input_stream_active = False\<rparr>)
   \<and> handle_audio_sample zero_buffer_config echo ''b'' True
       \<lparr>samples = [], buffer = \<lparr>queue = [''a''], maxsize = 0\<rparr>,
        recording_started = False, gap_counter = 0, input_stream_active = False\<rparr>
     = (Inr None,
        \<lparr>samples = [''a'', ''b''], buffer = \<lparr>queue = [''a'', ''b''], maxsize = 0\<rparr>,
         recording_started = True, gap_counter = 0, input_stream_active = False\<rparr>)
   \<and> [''a''] \<noteq> ([] :: char frame list)
   \<and> [''a'', ''b''] \<noteq> ([] :: char frame list)"
  by (simp add: init_def floordiv_def zero_buffer_config_def handle_unbounded_idle)

text \<open>
  C8, amended. With \<open>BUFFER_SIZE // VAD_SIZE = 0\<close> frame handling raises nothing and
  never blocks, provided the transcription function does not raise. The buffer is then
  unbounded: a frame handled while not recording is appended and none is removed, so
  from a freshly reset recogniser the buffer holds every frame received, and the
  snapshot taken at activation is all of them, the activating frame last.
\<close>

theorem zero_capacity_is_unbounded:
  assumes "BUFFER_SIZE cfg div VAD_SIZE cfg = 0"
    and "VAD_SIZE cfg \<noteq> 0"
    and "maxsize (buffer s) = BUFFER_SIZE cfg div VAD_SIZE cfg"
    and "freshly_reset cfg fresh"
    and "\<forall>audio. \<exists>t. transcribe audio = Inr t"
  shows "(\<exists>r. fst (handle_audio_sample cfg transcribe f v s) = Inr r)
         \<and> (\<not> recording_started s \<longrightarrow>
               handle_audio_sample cfg transcribe f v s
                 = (Inr None,
                    if v then s\<lparr>buffer := (buffer s)\<lparr>queue := queue (buffer s) @ [f]\<rparr>,
                                samples := queue (buffer s) @ [f],
                                recording_started := True\<rparr>
                    else s\<lparr>buffer := (buffer s)\<lparr>queue := queue (buffer s) @ [f]\<rparr>\<rparr>))
         \<and> listen_and_respond cfg transcribe (inactive pre @ [(a, True)]) fresh
             = (Inl Blocked,
                fresh\<lparr>buffer := (buffer fresh)\<lparr>queue := pre @ [a]\<rparr>,
                      samples := pre @ [a],
                      recording_started := True\<rparr>,
                [])"
proof (intro conjI impI)
  from assms(1,3) have m: "maxsize (buffer s) \<le> 0" by simp
  show "\<exists>r. fst (handle_audio_sample cfg transcribe f v s) = Inr r"
  proof (cases "recording_started s")
    case True
    from handle_recording_no_error [OF True assms(2,5)] show ?thesis .
  next
    case False
    from handle_unbounded_idle [OF m False, of cfg transcribe f v] show ?thesis by simp
  qed
next
  assume "\<not> recording_started s"
  moreover from assms(1,3) have "maxsize (buffer s) \<le> 0" by simp
  ultimately show "handle_audio_sample cfg transcribe f v s
                 = (Inr None,
                    if v then s\<lparr>buffer := (buffer s)\<lparr>queue := queue (buffer s) @ [f]\<rparr>,
                                samples := queue (buffer s) @ [f],
                                recording_started := True\<rparr>
                    else s\<lparr>buffer := (buffer s)\<lparr>queue := queue (buffer s) @ [f]\<rparr>\<rparr>)"
    by (rule handle_unbounded_idle [rotated])
next
  from listen_activation [OF assms(4), of transcribe pre a "[]"]
  show "listen_and_respond cfg transcribe (inactive pre @ [(a, True)]) fresh
             = (Inl Blocked,
                fresh\<lparr>buffer := (buffer fresh)\<lparr>queue := pre @ [a]\<rparr>,
                      samples := pre @ [a],
                      recording_started := True\<rparr>,
                [])"
    by (simp add: assms(1) lookback_def)
qed

theorem zero_capacity_is_unbounded_witness:
  "BUFFER_SIZE zero_buffer_config div VAD_SIZE zero_buffer_config = 0
   \<and> VAD_SIZE zero_buffer_config \<noteq> 0
   \<and> freshly_reset zero_buffer_config
       (\<lparr>samples = [], buffer = \<lparr>queue = [], maxsize = 0\<rparr>,
         recording_started = False, gap_counter = 0, input_stream_active = False\<rparr>
        :: char vad)
   \<and> (\<forall>audio. \<exists>t. echo audio = Inr t)
   \<and> handle_audio_sample zero_buffer_config echo ''c'' False
       \<lparr>samples = [], buffer = \<lparr>queue = [''a'', ''b''], maxsize = 0\<rparr>,
        recording_started = False, gap_counter = 0, input_stream_active = False\<rparr>
     = (Inr None,
        \<lparr>samples = [], buffer = \<lparr>queue = [''a'', ''b'', ''c''], maxsize = 0\<rparr>,
         recording_started = False, gap_counter = 0, input_stream_active = False\<rparr>)
   \<and> listen_and_respond zero_buffer_config echo
       (inactive [''a'', ''b'', ''c''] @ [(''d'', True)])
       \<lparr>samples = [], buffer = \<lparr>queue = [], maxsize = 0\<rparr>,
        recording_started = False, gap_counter = 0, input_stream_active = False\<rparr>
     = (Inl Blocked,
        \<lparr>samples = [''a'', ''b'', ''c'', ''d''],
         buffer = \<lparr>queue = [''a'', ''b'', ''c'', ''d''], maxsize = 0\<rparr>,
         recording_started = True, gap_counter = 0, input_stream_active = False\<rparr>,
        [])"
proof -
  have c: "BUFFER_SIZE zero_buffer_config div VAD_SIZE zero_buffer_config = 0"
    and v: "VAD_SIZE zero_buffer_config \<noteq> 0"
    by (simp_all add: zero_buffer_config_def)
  have fresh: "freshly_reset zero_buffer_config
       (\<lparr>samples = [], buffer = \<lparr>queue = [], maxsize = 0\<rparr>,
         recording_started = False, gap_counter = 0, input_stream_active = False\<rparr>
        :: char vad)"
    by (simp add: freshly_reset_def zero_buffer_config_def)
  have tr: "\<forall>audio. \<exists>t. echo audio = Inr t" by (simp add: echo_def)
  have m: "maxsize (buffer (\<lparr>samples = [], buffer = \<lparr>queue = [''a'', ''b''], maxsize = 0\<rparr>,
        recording_started = False, gap_counter = 0, input_stream_active = False\<rparr> :: char vad))
      = BUFFER_SIZE zero_buffer_config div VAD_SIZE zero_buffer_config"
    by (simp add: c)
  from c v fresh tr
    zero_capacity_is_unbounded [OF c v m fresh tr, of "''c''" False "[''a'', ''b'', ''c'']" "''d''"]
  show ?thesis by (simp del: listen_and_respond.simps)
qed

lemma handle_finalize:
  assumes "recording_started s" and "VAD_SIZE cfg \<noteq> 0"
    and "PAUSE_LIMIT cfg div VAD_SIZE cfg \<le> gap_counter s + 1"
    and "tr (concat (samples s @ [f])) = Inr (Some t)" and "t \<noteq> []"
  shows "handle_audio_sample cfg tr f False s
           = (Inr (Some (Result ''GoldRoger'' t ''text'')),
              s\<lparr>samples := samples s @ [f], gap_counter := gap_counter s + 1,
                input_stream_active := False\<rparr>)"
proof -
  let ?s2 = "s\<lparr>samples := samples s @ [f], gap_counter := gap_counter s + 1\<rparr>"
  have "handle_audio_sample cfg tr f False s = process_detected_audio tr ?s2"
    by (rule handle_recording_at_limit [OF assms(1,2,3)])
  also have "\<dots> = (Inr (Some (Result ''GoldRoger'' t ''text'')), ?s2\<lparr>input_stream_active := False\<rparr>)"
    by (rule process_detected_audio_truthy) (use assms(4,5) in simp_all)
  finally show ?thesis by simp
qed

text \<open>
  C1 as stated fails. In the run of four inactive frames, one active frame and four
  inactive frames, the call that handles the last frame returns the result, and the
  state it leaves is not reset: the recogniser is still recording, the accumulated
  samples and the look-back buffer are not empty and the gap counter is 4.
\<close>

theorem finalize_resets_counterexample:
  "fst (listen_and_respond scenario_config echo
       (inactive [''a'', ''b'', ''c'', ''d''] @ (''e'', True)
          # inactive [''f'', ''g'', ''h'', ''i''])
       \<lparr>samples = [], buffer = \<lparr>queue = [], maxsize = 4\<rparr>,
        recording_started = False, gap_counter = 0, input_stream_active = False\<rparr>)
     = Inr (Result ''GoldRoger'' ''bcdefghi'' ''text'')
   \<and> recording_started (fst (snd (listen_and_respond scenario_config echo
       (inactive [''a'', ''b'', ''c'', ''d''] @ (''e'', True)
          # inactive [''f'', ''g'', ''h'', ''i''])
       \<lparr>samples = [], buffer = \<lparr>queue = [], maxsize = 4\<rparr>,
        recording_started = False, gap_counter = 0, input_stream_active = False\<rparr>)))
   \<and> samples (fst (snd (listen_and_respond scenario_config echo
       (inactive [''a'', ''b'', ''c'', ''d''] @ (''e'', True)
          # inactive [''f'', ''g'', ''h'', ''i''])
       \<lparr>samples = [], buffer = \<lparr>queue = [], maxsize = 4\<rparr>,
        recording_started = False, gap_counter = 0, input_stream_active = False\<rparr>)))
       = [''b'', ''c'', ''d'', ''e'', ''f'', ''g'', ''h'', ''i'']
   \<and> gap_counter (fst (snd (listen_and_respond scenario_config echo
       (inactive [''a'', ''b'', ''c'', ''d''] @ (''e'', True)
          # inactive [''f'', ''g'', ''h'', ''i''])
       \<lparr>samples = [], buffer = \<lparr>queue = [], maxsize = 4\<rparr>,
        recording_started = False, gap_counter = 0, input_stream_active = False\<rparr>)))
       = 4
   \<and> queue (buffer (fst (snd (listen_and_respond scenario_config echo
       (inactive [''a'', ''b'', ''c'', ''d''] @ (''e'', True)
          # inactive [''f'', ''g'', ''h'', ''i''])
       \<lparr>samples = [], buffer = \<lparr>queue = [], maxsize = 4\<rparr>,
        recording_started = False, gap_counter = 0, input_stream_active = False\<rparr>))))
       = [''b'', ''c'', ''d'', ''e'']"
  by (simp only: scenario_full_buffer_run fst_conv snd_conv vad.simps Queue.simps simp_thms)

text \<open>
  C1, amended. When the pause limit is reached while recording and the transcription
  is truthy, frame handling returns the result without resetting anything: the
  recogniser is still recording, the accumulated samples (with the frame just handled),
  the incremented gap counter and the look-back buffer are kept, and only the input
  stream is stopped. The reset (not recording, no samples, gap counter 0, empty
  buffer) is done by \<open>start_listening\<close> on the state that the listening loop returns,
  that is after the transcription function has been called.
\<close>

theorem finalize_keeps_state:
  assumes "recording_started s"
    and "VAD_SIZE cfg \<noteq> 0"
    and "PAUSE_LIMIT cfg div VAD_SIZE cfg \<le> gap_counter s + 1"
    and "transcribe (concat (samples s @ [f])) = Inr (Some t)"
    and "t \<noteq> []"
  shows "handle_audio_sample cfg transcribe f False s
           = (Inr (Some (Result ''GoldRoger'' t ''text'')),
              s\<lparr>samples := samples s @ [f], gap_counter := gap_counter s + 1,
                input_stream_active := False\<rparr>)
         \<and> start_listening cfg transcribe ((f, False) # sample_queue) s
           = (Inr (Result ''GoldRoger'' t ''text''),
              snd (reset (s\<lparr>samples := samples s @ [f], gap_counter := gap_counter s + 1,
                            input_stream_active := False\<rparr>)),
              sample_queue)
         \<and> snd (reset (s\<lparr>samples := samples s @ [f], gap_counter := gap_counter s + 1,
                         input_stream_active := False\<rparr>))
           = s\<lparr>samples := [], gap_counter := 0, recording_started := False,
               buffer := (buffer s)\<lparr>queue := []\<rparr>, input_stream_active := False\<rparr>"
proof (intro conjI)
  show "handle_audio_sample cfg transcribe f False s
           = (Inr (Some (Result ''GoldRoger'' t ''text'')),
              s\<lparr>samples := samples s @ [f], gap_counter := gap_counter s + 1,
                input_stream_active := False\<rparr>)"
    by (rule handle_finalize) (fact assms)+
next
  let ?s0 = "s\<lparr>input_stream_active := True\<rparr>"
  have "handle_audio_sample cfg transcribe f False ?s0
           = (Inr (Some (Result ''GoldRoger'' t ''text'')),
              ?s0\<lparr>samples := samples ?s0 @ [f], gap_counter := gap_counter ?s0 + 1,
                input_stream_active := False\<rparr>)"
    by (rule handle_finalize) (use assms in simp_all)
  then show "start_listening cfg transcribe ((f, False) # sample_queue) s
           = (Inr (Result ''GoldRoger'' t ''text''),
              snd (reset (s\<lparr>samples := samples s @ [f], gap_counter := gap_counter s + 1,
                            input_stream_active := False\<rparr>)),
              sample_queue)"
    by (simp add: start_listening_def reset_def)
next
  show "snd (reset (s\<lparr>samples := samples s @ [f], gap_counter := gap_counter s + 1,
                         input_stream_active := False\<rparr>))
           = s\<lparr>samples := [], gap_counter := 0, recording_started := False,
               buffer := (buffer s)\<lparr>queue := []\<rparr>, input_stream_active := False\<rparr>"
    by (cases s) (simp add: reset_def)
qed

theorem finalize_keeps_state_witness:
  "recording_started
     \<lparr>samples = [''a'', ''b'', ''c'', ''d''], buffer = \<lparr>queue = [''a''], maxsize = 4\<rparr>,
      recording_started = True, gap_counter = 3, input_stream_active = True\<rparr>
   \<and> VAD_SIZE scenario_config \<noteq> 0
   \<and> PAUSE_LIMIT scenario_config div VAD_SIZE scenario_config \<le> 3 + 1
   \<and> echo (concat ([''a'', ''b'', ''c'', ''d''] @ [''e''])) = Inr (Some ''abcde'')
   \<and> handle_audio_sample scenario_config echo ''e'' False
       \<lparr>samples = [''a'', ''b'', ''c'', ''d''], buffer = \<lparr>queue = [''a''], maxsize = 4\<rparr>,
        recording_started = True, gap_counter = 3, input_stream_active = True\<rparr>
     = (Inr (Some (Result ''GoldRoger'' ''abcde'' ''text'')),
        \<lparr>samples = [''a'', ''b'', ''c'', ''d'', ''e''], buffer = \<lparr>queue = [''a''], maxsize = 4\<rparr>,
         recording_started = True, gap_counter = 4, input_stream_active = False\<rparr>)
   \<and> start_listening scenario_config echo [(''e'', False), (''f'', False)]
       \<lparr>samples = [''a'', ''b'', ''c'', ''d''], buffer = \<lparr>queue = [''a''], maxsize = 4\<rparr>,
        recording_started = True, gap_counter = 3, input_stream_active = True\<rparr>
     = (Inr (Result ''GoldRoger'' ''abcde'' ''text''),
        \<lparr>samples = [], buffer = \<lparr>queue = [], maxsize = 4\<rparr>,
         recording_started = False, gap_counter = 0, input_stream_active = False\<rparr>,
        [(''f'', False)])"
proof -
  have v: "VAD_SIZE scenario_config \<noteq> 0"
    and l: "PAUSE_LIMIT scenario_config div VAD_SIZE scenario_config \<le> 3 + 1"
    by (simp_all add: scenario_config_def)
  have tr: "echo (concat ([''a'', ''b'', ''c'', ''d''] @ [''e''])) = Inr (Some ''abcde'')"
    by (simp add: echo_def)
  from v l tr finalize_keeps_state
    [where s = "\<lparr>samples = [''a'', ''b'', ''c'', ''d''], buffer = \<lparr>queue = [''a''], maxsize = 4\<rparr>,
                 recording_started = True, gap_counter = 3, input_stream_active = True\<rparr>"
       and cfg = scenario_config and transcribe = echo and f = "''e''" and t = "''abcde''"
       and sample_queue = "[(''f'', False)]"]
  show ?thesis by (simp add: reset_def)
qed

subsection \<open>Pauses in any mix of frames\<close>

lemma consecutive_inactive_snoc:
  "consecutive_inactive (q @ [p]) = (if snd p then 0 else Suc (consecutive_inactive q))"
  by (simp add: consecutive_inactive_def)

lemma pauses_below_snoc:
  "pauses_below L (q @ [p])
     = (pauses_below L q \<and> (snd p \<or> int (consecutive_inactive (q @ [p])) < L))"
  by (auto simp: pauses_below_def list_all_iff nth_append)

lemma listen_recording_quiet:
  assumes "recording_started s" and "VAD_SIZE cfg \<noteq> 0" and "gap_counter s = 0"
    and "pauses_below (PAUSE_LIMIT cfg div VAD_SIZE cfg) later"
  shows "listen_and_respond cfg tr (later @ rest) s
           = listen_and_respond cfg tr rest
               (s\<lparr>samples := samples s @ map fst later,
                   gap_counter := int (consecutive_inactive later)\<rparr>)"
  using assms(4)
proof (induction later arbitrary: rest rule: rev_induct)
  case Nil
  have "s\<lparr>gap_counter := 0\<rparr> = s" using assms(3) by (cases s) simp
  then show ?case by (simp add: consecutive_inactive_def)
next
  case (snoc p later)
  obtain f v where p: "p = (f, v)" by (cases p)
  let ?s2 = "s\<lparr>samples := samples s @ map fst later,
                gap_counter := int (consecutive_inactive later)\<rparr>"
  from snoc.prems have q: "pauses_below (PAUSE_LIMIT cfg div VAD_SIZE cfg) later"
    and last: "v \<or> int (consecutive_inactive (later @ [p])) < PAUSE_LIMIT cfg div VAD_SIZE cfg"
    by (simp_all add: pauses_below_snoc p)
  have r2: "recording_started ?s2" using assms(1) by simp
  have "listen_and_respond cfg tr ((later @ [p]) @ rest) s
          = listen_and_respond cfg tr (p # rest) ?s2"
    using snoc.IH [OF q, of "p # rest"] by simp
  also have "\<dots> = listen_and_respond cfg tr rest
               (s\<lparr>samples := samples s @ map fst (later @ [p]),
                   gap_counter := int (consecutive_inactive (later @ [p]))\<rparr>)"
  proof (cases v)
    case True
    have "handle_audio_sample cfg tr f True ?s2
            = (Inr None, ?s2\<lparr>samples := samples ?s2 @ [f], gap_counter := 0\<rparr>)"
      by (rule handle_recording_active [OF r2])
    with True p show ?thesis by (simp add: consecutive_inactive_snoc)
  next
    case False
    with last p have "gap_counter ?s2 + 1 < PAUSE_LIMIT cfg div VAD_SIZE cfg"
      by (simp add: consecutive_inactive_snoc)
    from handle_recording_below_limit [OF r2 assms(2) this, of tr f]
    have "handle_audio_sample cfg tr f False ?s2
            = (Inr None, ?s2\<lparr>samples := samples ?s2 @ [f],
                              gap_counter := gap_counter ?s2 + 1\<rparr>)" .
    with False p show ?thesis by (simp add: consecutive_inactive_snoc add.commute)
  qed
  finally show ?case .
qed

lemma handle_finalize_falsy:
  assumes "recording_started s" and "VAD_SIZE cfg \<noteq> 0"
    and "PAUSE_LIMIT cfg div VAD_SIZE cfg \<le> gap_counter s + 1"
    and "tr (concat (samples s @ [f])) = Inr (Some [])"
  shows "handle_audio_sample cfg tr f False s
           = (Inr None,
              s\<lparr>samples := samples s @ [f], gap_counter := gap_counter s + 1,
                input_stream_active := False\<rparr>)"
  using assms
  by (simp add: handle_audio_sample_def process_activated_audio_def floordiv_def
      process_detected_audio_def asr_def Let_def)

lemma run_quiet:
  assumes "freshly_reset cfg s"
    and "pauses_below (PAUSE_LIMIT cfg div VAD_SIZE cfg) later"
  shows "listen_and_respond cfg tr (inactive pre @ (a, True) # later @ rest) s
           = listen_and_respond cfg tr rest
               (s\<lparr>buffer := (buffer s)\<lparr>queue :=
                      lookback (BUFFER_SIZE cfg div VAD_SIZE cfg) (pre @ [a])\<rparr>,
                   samples := lookback (BUFFER_SIZE cfg div VAD_SIZE cfg) (pre @ [a])
                                @ map fst later,
                   recording_started := True,
                   gap_counter := int (consecutive_inactive later)\<rparr>)"
proof -
  let ?C = "BUFFER_SIZE cfg div VAD_SIZE cfg"
  let ?s2 = "s\<lparr>buffer := (buffer s)\<lparr>queue := lookback ?C (pre @ [a])\<rparr>,
                samples := lookback ?C (pre @ [a]), recording_started := True\<rparr>"
  from assms(1) have v: "VAD_SIZE cfg \<noteq> 0" and g: "gap_counter s = 0"
    by (simp_all add: freshly_reset_def)
  have "listen_and_respond cfg tr (inactive pre @ (a, True) # later @ rest) s
          = listen_and_respond cfg tr (later @ rest) ?s2"
    by (rule listen_activation [OF assms(1)])
  also have "\<dots> = listen_and_respond cfg tr rest
       (?s2\<lparr>samples := samples ?s2 @ map fst later,
             gap_counter := int (consecutive_inactive later)\<rparr>)"
    by (rule listen_recording_quiet) (simp_all add: g v assms(2))
  finally have run: "listen_and_respond cfg tr (inactive pre @ (a, True) # later @ rest) s
      = listen_and_respond cfg tr rest
          (?s2\<lparr>samples := samples ?s2 @ map fst later,
                gap_counter := int (consecutive_inactive later)\<rparr>)" .
  have st: "?s2\<lparr>samples := samples ?s2 @ map fst later,
                gap_counter := int (consecutive_inactive later)\<rparr>
      = s\<lparr>buffer := (buffer s)\<lparr>queue := lookback ?C (pre @ [a])\<rparr>,
          samples := lookback ?C (pre @ [a]) @ map fst later,
          recording_started := True,
          gap_counter := int (consecutive_inactive later)\<rparr>"
    by (cases s) simp
  show ?thesis by (simp only: run st)
qed

text \<open>
  C3, amended. From a freshly reset recogniser, after any inactive frames and the
  activating frame, let any mix of active and inactive frames follow in which no run of
  consecutive inactive frames reaches \<open>PAUSE_LIMIT // VAD_SIZE\<close>. Then no result is
  returned and the transcription function is not called (the input stream is left as it
  was); all frames are accumulated and the gap counter is the number of inactive frames
  at the end of the sequence, counted since the last active frame. The next inactive
  frame, if the count reaches the quotient with it (or if the quotient is not positive),
  hands the accumulated audio to the transcription function and, when the text is not
  empty, the result is returned on exactly that frame.
\<close>

theorem pause_timeout_exact:
  assumes "freshly_reset cfg s"
    and "L = PAUSE_LIMIT cfg div VAD_SIZE cfg"
    and "C = BUFFER_SIZE cfg div VAD_SIZE cfg"
    and "pauses_below L later"
  shows "listen_and_respond cfg transcribe (inactive pre @ (a, True) # later) s
           = (Inl Blocked,
              s\<lparr>buffer := (buffer s)\<lparr>queue := lookback C (pre @ [a])\<rparr>,
                samples := lookback C (pre @ [a]) @ map fst later,
                recording_started := True,
                gap_counter := int (consecutive_inactive later)\<rparr>,
              [])
         \<and> (L \<le> int (consecutive_inactive later) + 1
              \<and> transcribe (concat (lookback C (pre @ [a]) @ map fst later @ [f]))
                  = Inr (Some t)
              \<and> t \<noteq> [] \<longrightarrow>
            listen_and_respond cfg transcribe
                (inactive pre @ (a, True) # later @ [(f, False)]) s
              = (Inr (Result ''GoldRoger'' t ''text''),
                 s\<lparr>buffer := (buffer s)\<lparr>queue := lookback C (pre @ [a])\<rparr>,
                   samples := lookback C (pre @ [a]) @ map fst later @ [f],
                   recording_started := True,
                   gap_counter := int (consecutive_inactive later) + 1,
                   input_stream_active := False\<rparr>,
                 []))"
proof (intro conjI impI)
  from assms(4) have q: "pauses_below (PAUSE_LIMIT cfg div VAD_SIZE cfg) later"
    by (simp add: assms(2))
  from run_quiet [OF assms(1) q, of transcribe pre a "[]"]
  show "listen_and_respond cfg transcribe (inactive pre @ (a, True) # later) s
           = (Inl Blocked,
              s\<lparr>buffer := (buffer s)\<lparr>queue := lookback C (pre @ [a])\<rparr>,
                samples := lookback C (pre @ [a]) @ map fst later,
                recording_started := True,
                gap_counter := int (consecutive_inactive later)\<rparr>,
              [])"
    by (simp add: assms(3))
next
  assume h: "L \<le> int (consecutive_inactive later) + 1
              \<and> transcribe (concat (lookback C (pre @ [a]) @ map fst later @ [f]))
                  = Inr (Some t)
              \<and> t \<noteq> []"
  from assms(4) have q: "pauses_below (PAUSE_LIMIT cfg div VAD_SIZE cfg) later"
    by (simp add: assms(2))
  from assms(1) have v: "VAD_SIZE cfg \<noteq> 0" by (simp add: freshly_reset_def)
  let ?s = "s\<lparr>buffer := (buffer s)\<lparr>queue := lookback C (pre @ [a])\<rparr>,
               samples := lookback C (pre @ [a]) @ map fst later,
               recording_started := True,
               gap_counter := int (consecutive_inactive later)\<rparr>"
  have "handle_audio_sample cfg transcribe f False ?s
          = (Inr (Some (Result ''GoldRoger'' t ''text'')),
             ?s\<lparr>samples := samples ?s @ [f], gap_counter := gap_counter ?s + 1,
                 input_stream_active := False\<rparr>)"
    by (rule handle_finalize) (use h v assms(2) in simp_all)
  moreover have "listen_and_respond cfg transcribe
                (inactive pre @ (a, True) # later @ [(f, False)]) s
          = listen_and_respond cfg transcribe [(f, False)] ?s"
    using run_quiet [OF assms(1) q, of transcribe pre a "[(f, False)]"]
    by (simp add: assms(3))
  ultimately have run: "listen_and_respond cfg transcribe
                (inactive pre @ (a, True) # later @ [(f, False)]) s
          = (Inr (Result ''GoldRoger'' t ''text''),
             ?s\<lparr>samples := samples ?s @ [f], gap_counter := gap_counter ?s + 1,
                 input_stream_active := False\<rparr>, [])"
    by simp
  have st: "?s\<lparr>samples := samples ?s @ [f], gap_counter := gap_counter ?s + 1,
                 input_stream_active := False\<rparr>
      = s\<lparr>buffer := (buffer s)\<lparr>queue := lookback C (pre @ [a])\<rparr>,
           samples := lookback C (pre @ [a]) @ map fst later @ [f],
           recording_started := True,
           gap_counter := int (consecutive_inactive later) + 1,
           input_stream_active := False\<rparr>"
    by (cases s) simp
  show "listen_and_respond cfg transcribe
                (inactive pre @ (a, True) # later @ [(f, False)]) s
              = (Inr (Result ''GoldRoger'' t ''text''),
                 s\<lparr>buffer := (buffer s)\<lparr>queue := lookback C (pre @ [a])\<rparr>,
                   samples := lookback C (pre @ [a]) @ map fst later @ [f],
                   recording_started := True,
                   gap_counter := int (consecutive_inactive later) + 1,
                   input_stream_active := False\<rparr>,
                 [])"
    by (simp only: run st)
qed

theorem pause_timeout_exact_witness:
  "freshly_reset scenario_config
     (\<lparr>samples = [], buffer = \<lparr>queue = [], maxsize = 4\<rparr>,
       recording_started = False, gap_counter = 0, input_stream_active = True\<rparr>
      :: char vad)
   \<and> pauses_below 4
       [(''b'', False), (''c'', False), (''d'', False), (''e'', True), (''f'', False),
        (''g'', False), (''h'', False)]
   \<and> listen_and_respond scenario_config echo
       [(''a'', True), (''b'', False), (''c'', False), (''d'', False), (''e'', True),
        (''f'', False), (''g'', False), (''h'', False)]
       \<lparr>samples = [], buffer = \<lparr>queue = [], maxsize = 4\<rparr>,
        recording_started = False, gap_counter = 0, input_stream_active = True\<rparr>
     = (Inl Blocked,
        \<lparr>samples = [''a'', ''b'', ''c'', ''d'', ''e'', ''f'', ''g'', ''h''],
         buffer = \<lparr>queue = [''a''], maxsize = 4\<rparr>,
         recording_started = True, gap_counter = 3, input_stream_active = True\<rparr>,
        [])
   \<and> listen_and_respond scenario_config echo
       [(''a'', True), (''b'', False), (''c'', False), (''d'', False), (''e'', True),
        (''f'', False), (''g'', False), (''h'', False), (''i'', False)]
       \<lparr>samples = [], buffer = \<lparr>queue = [], maxsize = 4\<rparr>,
        recording_started = False, gap_counter = 0, input_stream_active = True\<rparr>
     = (Inr (Result ''GoldRoger'' ''abcdefghi'' ''text''),
        \<lparr>samples = [''a'', ''b'', ''c'', ''d'', ''e'', ''f'', ''g'', ''h'', ''i''],
         buffer = \<lparr>queue = [''a''], maxsize = 4\<rparr>,
         recording_started = True, gap_counter = 4, input_stream_active = False\<rparr>,
        [])"
proof -
  have fresh: "freshly_reset scenario_config
     (\<lparr>samples = [], buffer = \<lparr>queue = [], maxsize = 4\<rparr>,
       recording_started = False, gap_counter = 0, input_stream_active = True\<rparr>
      :: char vad)"
    by (simp add: freshly_reset_def scenario_config_def)
  have L: "4 = PAUSE_LIMIT scenario_config div VAD_SIZE scenario_config"
    and C: "4 = BUFFER_SIZE scenario_config div VAD_SIZE scenario_config"
    by (simp_all add: scenario_config_def)
  have quiet: "pauses_below 4
       [(''b'', False), (''c'', False), (''d'', False), (''e'', True), (''f'', False),
        (''g'', False), (''h'', False)]"
    by code_simp
  have cnt: "consecutive_inactive
       [(''b'', False), (''c'', False), (''d'', False), (''e'', True), (''f'', False),
        (''g'', False), (''h'', False)] = 3"
    by (simp add: consecutive_inactive_def)
  have lb: "lookback 4 [''a''] = [''a'']"
    by (simp add: lookback_def)
  have tr: "echo ''abcdefghi'' = Inr (Some ''abcdefghi'')"
    by (simp add: echo_def)
  note run = pause_timeout_exact
    [where transcribe = echo and pre = "[]" and a = "''a''" and f = "''i''"
       and t = "''abcdefghi''", OF fresh L C quiet]
  from run fresh quiet cnt lb tr show ?thesis
    by (simp add: inactive_def del: listen_and_respond.simps)
qed

text \<open>
  C3 as stated fails. With a pause limit of four frames and a transcription function
  that returns the empty text for fewer than six samples, the frame \<open>e\<close> with which
  the count of consecutive inactive frames reaches four produces no utterance (the
  transcription is attempted and the input stream stopped, but nothing is returned);
  the utterance is returned one frame later, with a count of five.
\<close>

theorem pause_timeout_counterexample:
  "PAUSE_LIMIT scenario_config div VAD_SIZE scenario_config = 4
   \<and> listen_and_respond scenario_config (mute_below 6)
       [(''a'', True), (''b'', False), (''c'', False), (''d'', False), (''e'', False)]
       \<lparr>samples = [], buffer = \<lparr>queue = [], maxsize = 4\<rparr>,
        recording_started = False, gap_counter = 0, input_stream_active = True\<rparr>
     = (Inl Blocked,
        \<lparr>samples = [''a'', ''b'', ''c'', ''d'', ''e''],
         buffer = \<lparr>queue = [''a''], maxsize = 4\<rparr>,
         recording_started = True, gap_counter = 4, input_stream_active = False\<rparr>,
        [])
   \<and> listen_and_respond scenario_config (mute_below 6)
       [(''a'', True), (''b'', False), (''c'', False), (''d'', False), (''e'', False),
        (''f'', False)]
       \<lparr>samples = [], buffer = \<lparr>queue = [], maxsize = 4\<rparr>,
        recording_started = False, gap_counter = 0, input_stream_active = True\<rparr>
     = (Inr (Result ''GoldRoger'' ''abcdef'' ''text''),
        \<lparr>samples = [''a'', ''b'', ''c'', ''d'', ''e'', ''f''],
         buffer = \<lparr>queue = [''a''], maxsize = 4\<rparr>,
         recording_started = True, gap_counter = 5, input_stream_active = False\<rparr>,
        [])"
proof -
  let ?s0 = "\<lparr>samples = [], buffer = \<lparr>queue = [], maxsize = 4\<rparr>,
             recording_started = False, gap_counter = 0, input_stream_active = True\<rparr> :: char vad"
  let ?s3 = "\<lparr>samples = [''a'', ''b'', ''c'', ''d''], buffer = \<lparr>queue = [''a''], maxsize = 4\<rparr>,
             recording_started = True, gap_counter = 3, input_stream_active = True\<rparr> :: char vad"
  let ?s4 = "\<lparr>samples = [''a'', ''b'', ''c'', ''d'', ''e''],
             buffer = \<lparr>queue = [''a''], maxsize = 4\<rparr>,
             recording_started = True, gap_counter = 4, input_stream_active = False\<rparr> :: char vad"
  let ?s5 = "\<lparr>samples = [''a'', ''b'', ''c'', ''d'', ''e'', ''f''],
             buffer = \<lparr>queue = [''a''], maxsize = 4\<rparr>,
             recording_started = True, gap_counter = 5, input_stream_active = False\<rparr> :: char vad"
  have L: "PAUSE_LIMIT scenario_config div VAD_SIZE scenario_config = 4"
    and C: "BUFFER_SIZE scenario_config div VAD_SIZE scenario_config = 4"
    and v: "VAD_SIZE scenario_config \<noteq> 0"
    by (simp_all add: scenario_config_def)
  have fresh: "freshly_reset scenario_config ?s0"
    by (simp add: freshly_reset_def scenario_config_def)
  have quiet: "pauses_below (PAUSE_LIMIT scenario_config div VAD_SIZE scenario_config)
       [(''b'', False), (''c'', False), (''d'', False)]"
    unfolding L by code_simp
  have cnt: "consecutive_inactive [(''b'', False), (''c'', False), (''d'', False)] = 3"
    by (simp add: consecutive_inactive_def)
  have lb: "lookback 4 [''a''] = [''a'']"
    by (simp add: lookback_def)
  have start: "listen_and_respond scenario_config (mute_below 6)
        ((''a'', True) # [(''b'', False), (''c'', False), (''d'', False)] @ rest) ?s0
      = listen_and_respond scenario_config (mute_below 6) rest ?s3" for rest
    using run_quiet [OF fresh quiet, of "mute_below 6" "[]" "''a''" rest]
    by (simp add: inactive_def C cnt lb del: listen_and_respond.simps)
  have e: "handle_audio_sample scenario_config (mute_below 6) ''e'' False ?s3 = (Inr None, ?s4)"
    using handle_finalize_falsy [of ?s3 scenario_config "mute_below 6" "''e''"]
    by (simp add: L v mute_below_def)
  have f: "handle_audio_sample scenario_config (mute_below 6) ''f'' False ?s4
             = (Inr (Some (Result ''GoldRoger'' ''abcdef'' ''text'')), ?s5)"
    using handle_finalize [of ?s4 scenario_config "mute_below 6" "''f''" "''abcdef''"]
    by (simp add: L v mute_below_def)
  have "listen_and_respond scenario_config (mute_below 6)
       [(''a'', True), (''b'', False), (''c'', False), (''d'', False), (''e'', False)] ?s0
     = (Inl Blocked, ?s4, [])"
    using start [of "[(''e'', False)]"] e by simp
  moreover have "listen_and_respond scenario_config (mute_below 6)
       [(''a'', True), (''b'', False), (''c'', False), (''d'', False), (''e'', False),
        (''f'', False)] ?s0
     = (Inr (Result ''GoldRoger'' ''abcdef'' ''text''), ?s5, [])"
    using start [of "[(''e'', False), (''f'', False)]"] e f by simp
  ultimately show ?thesis using L by simp
qed

end
